theory Spec2Isabelle
  imports Complex_Main
begin

section \<open>Bright-spot preprocessing of minian (\<open>minian/preprocessing.py\<close>)\<close>

text \<open>
  The arrays of the module are xarray \<open>DataArray\<close>s. The code reads them in two ways, and
  the embedding keeps both views:
  \<^item> by position (\<open>.values\<close>, \<open>np.nonzero\<close>, \<open>rolling\<close>): an index tuple is a list of
    naturals, in row-major order;
  \<^item> by label (\<open>.loc[dict]\<close>, \<open>.coords[dim]\<close>): a location assigns a coordinate label to
    every dimension name.
  Samples are real numbers, and the rounding of floating-point arithmetic is outside the
  model. The element type of the video is in the model where the code writes into the
  video: an assignment converts the value to that type. A NaN that the code can produce
  (a z-score of a column without variance, the minimum of nothing) is the value \<open>None\<close>
  of an option type, and a comparison with it is false.
\<close>

datatype py_error = KeyError | ValueError | TypeError

subsection \<open>Data of \<open>correct_brightspot\<close>\<close>

text \<open>
  A \<open>HashableDict\<close> maps the dimension names of the mask to one coordinate each. Every
  such dictionary of \<open>correct_brightspot\<close> is built over the keys \<open>spots.dims\<close> in that
  order, so it is the list of its items; on such lists equality is the equality of
  dictionaries.
\<close>

type_synonym point = "(string \<times> int) list"

type_synonym location = "string \<Rightarrow> int"

type_synonym buffer = "location \<Rightarrow> real"

text \<open>
  The mask \<open>spots\<close>: its dimension names, the index coordinate of each dimension (its
  length is the extent of the dimension) and the integer values by position. A boolean
  mask has the values 0 and 1.
\<close>

record spots =
  s_dims :: "string list"
  s_coords :: "string \<Rightarrow> int list"
  s_values :: "nat list \<Rightarrow> int"

text \<open>
  The element types of a video: floating point, or unsigned integers of 8 bits.
  \<open>varr_ds.loc[p] = value\<close> converts a float64 value to the element type of \<open>varr_ds\<close>:
  to a floating-point type it keeps the number (up to rounding), to \<open>uint8\<close> it drops the
  fraction and keeps the low 8 bits. The samples of an 8-bit video lie in 0..255 and so
  does every mean of them, which is therefore rounded down.
\<close>

datatype dtype = Float | UInt8

definition to_dtype :: "dtype \<Rightarrow> real \<Rightarrow> real" where
  "to_dtype dt x =
     (case dt of
        Float \<Rightarrow> x
      | UInt8 \<Rightarrow> of_int ((if x < 0 then \<lceil>x\<rceil> else \<lfloor>x\<rfloor>) mod 256))"

text \<open>
  The video: its name (\<open>None\<close> for an array without a name), its element type, the index
  coordinates of its dimensions (\<open>None\<close> for a name that is
  not a dimension of the video) and the address of its sample buffer. Python passes the
  array by reference, so the samples live in a heap; \<open>varray.copy()\<close> allocates a new
  buffer, \<open>rename\<close> shares the buffer of its argument. A buffer is read and written by
  label, as \<open>.loc\<close> does; the labels of a dimension are unique, so a location names one
  sample.
\<close>

record video =
  v_name :: "string option"
  v_dtype :: dtype
  v_coords :: "string \<rightharpoonup> int list"
  v_data :: nat

record heap =
  cells :: "nat \<Rightarrow> buffer"
  next_free :: nat

definition samples :: "heap \<Rightarrow> video \<Rightarrow> buffer" where
  "samples h v = cells h (v_data v)"

definition copy_video :: "heap \<Rightarrow> video \<Rightarrow> video \<times> heap" where
  "copy_video h v =
     (v\<lparr>v_data := next_free h\<rparr>,
      h\<lparr>cells := (cells h)(next_free h := cells h (v_data v)),
        next_free := Suc (next_free h)\<rparr>)"

text \<open>The messages printed by \<open>correct_brightspot\<close>, in the order of the \<open>print\<close> calls.\<close>

datatype diag =
    Correcting
  | NoSpots
  | ProcessingSpot nat nat
  | UnableToCorrect nat point
  | CorrectionDone

subsection \<open>Flagged points\<close>

text \<open>
  \<open>np.nonzero(spots.values > spot_thres)\<close> lists the index tuples of the mask in row-major
  order; \<open>brt_list\<close> holds for each of them the labels \<open>spots.coords[dm][brt[idm][ib]]\<close>.
  Before that, \<open>if len(spot_dim) > 2: spot_thres = 0\<close>. The short-circuit of the function
  tests \<open>spots.sum()\<close>, the sum of all entries.
\<close>

definition s_indices :: "spots \<Rightarrow> nat list list" where
  "s_indices sp = product_lists (map (\<lambda>dm. [0..<length (s_coords sp dm)]) (s_dims sp))"

definition s_sum :: "spots \<Rightarrow> int" where
  "s_sum sp = sum_list (map (s_values sp) (s_indices sp))"

definition coord_of :: "spots \<Rightarrow> nat list \<Rightarrow> point" where
  "coord_of sp idx = map2 (\<lambda>dm i. (dm, s_coords sp dm ! i)) (s_dims sp) idx"

definition effective_thres :: "spots \<Rightarrow> int \<Rightarrow> int" where
  "effective_thres sp spot_thres = (if length (s_dims sp) > 2 then 0 else spot_thres)"

definition brt_list :: "spots \<Rightarrow> int \<Rightarrow> point list" where
  "brt_list sp spot_thres =
     map (coord_of sp)
       (filter (\<lambda>idx. s_values sp idx > effective_thres sp spot_thres) (s_indices sp))"

subsection \<open>Neighbour sets\<close>

text \<open>
  \<open>list(set(range(co - window, co + window + 1)).intersection(set(coords)))\<close>: the order
  of a Python set is not fixed; the model lists the labels in increasing order.
\<close>

definition axis_range :: "int \<Rightarrow> int \<Rightarrow> int list \<Rightarrow> int list" where
  "axis_range window co cs = filter (\<lambda>c. c \<in> set cs) [co - window .. co + window]"

text \<open>\<open>cur_sur\<close>: one pair per item of \<open>brt_cord\<close>; \<open>varr_ds.coords[dim]\<close> raises \<open>KeyError\<close>
  for a name the video does not have.\<close>

fun cur_sur :: "(string \<rightharpoonup> int list) \<Rightarrow> int \<Rightarrow> point \<Rightarrow> (string \<times> int list) list option" where
  "cur_sur cs window [] = Some []"
| "cur_sur cs window ((dm, co) # rest) =
     (case cs dm of
        None \<Rightarrow> None
      | Some xs \<Rightarrow>
          (case cur_sur cs window rest of
             None \<Rightarrow> None
           | Some rs \<Rightarrow> Some ((dm, axis_range window co xs) # rs)))"

definition cur_sur_list :: "(string \<times> int list) list \<Rightarrow> point list" where
  "cur_sur_list sur = map (\<lambda>cord. zip (map fst sur) cord) (product_lists (map snd sur))"

text \<open>\<open>list(set(cur_sur_list) - set(brt_list))\<close>.\<close>

definition neighbours :: "(string \<rightharpoonup> int list) \<Rightarrow> int \<Rightarrow> point list \<Rightarrow> point \<Rightarrow> point list option" where
  "neighbours cs window brt brt_cord =
     (case cur_sur cs window brt_cord of
        None \<Rightarrow> None
      | Some sur \<Rightarrow> Some (remdups (filter (\<lambda>q. q \<notin> set brt) (cur_sur_list sur))))"

fun sur_list :: "(string \<rightharpoonup> int list) \<Rightarrow> int \<Rightarrow> point list \<Rightarrow> point list \<Rightarrow> py_error + point list list" where
  "sur_list cs window brt [] = Inr []"
| "sur_list cs window brt (brt_cord # rest) =
     (case neighbours cs window brt brt_cord of
        None \<Rightarrow> Inl KeyError
      | Some s \<Rightarrow>
          (case sur_list cs window brt rest of
             Inl e \<Rightarrow> Inl e
           | Inr ss \<Rightarrow> Inr (s # ss)))"

subsection \<open>The correction loop\<close>

text \<open>
  \<open>varr_ds.loc[p]\<close> selects the locations whose labels on the keys of \<open>p\<close> are those of
  \<open>p\<close>; it raises \<open>KeyError\<close> when a key is not a dimension or a label is not in its index.
\<close>

definition matches :: "point \<Rightarrow> location \<Rightarrow> bool" where
  "matches p l = list_all (\<lambda>(dm, c). l dm = c) p"

definition at_point :: "location \<Rightarrow> point \<Rightarrow> location" where
  "at_point l q = (\<lambda>dm. case map_of q dm of Some c \<Rightarrow> c | None \<Rightarrow> l dm)"

definition loc_ok :: "(string \<rightharpoonup> int list) \<Rightarrow> point \<Rightarrow> bool" where
  "loc_ok cs p = list_all (\<lambda>(dm, c). case cs dm of None \<Rightarrow> False | Some xs \<Rightarrow> c \<in> set xs) p"

definition mean :: "real list \<Rightarrow> real" where
  "mean xs = sum_list xs / real (length xs)"

text \<open>
  The stack \<open>cur_sur\<close> of the second loop holds, per sample, the slice \<open>varr_ds.loc[cord_samp]\<close>
  over the remaining dimensions; its mean over \<open>sample\<close> is written to \<open>varr_ds.loc[cur_brt]\<close>.
  At a location \<open>l\<close> of that slice the sample of neighbour \<open>q\<close> is the video at \<open>l\<close> with the
  labels of \<open>q\<close> on the mask's dimensions. The stack is a float64 array of its own, so the
  reads are exact; the write converts the mean to the element type \<open>dt\<close> of the video.
\<close>

definition assign_mean :: "dtype \<Rightarrow> buffer \<Rightarrow> point \<Rightarrow> point list \<Rightarrow> buffer" where
  "assign_mean dt buf cur_brt sur =
     (\<lambda>l. if matches cur_brt l then to_dtype dt (mean (map (\<lambda>q. buf (at_point l q)) sur))
          else buf l)"

text \<open>
  The second loop, over \<open>enumerate(brt_list)\<close>: \<open>n\<close> is \<open>len(brt_list)\<close> and \<open>surs\<close> is
  \<open>sur_list\<close>, which has one entry per flagged point. A point with neighbours reads the
  slices of all of them and then writes its own; a point without neighbours is reported.
\<close>

fun correct_loop ::
  "dtype \<Rightarrow> (string \<rightharpoonup> int list) \<Rightarrow> nat \<Rightarrow> nat \<Rightarrow> point list \<Rightarrow> point list list \<Rightarrow> buffer
     \<Rightarrow> py_error + (buffer \<times> diag list)" where
  "correct_loop dt cs n ibrt [] surs buf = Inr (buf, [])"
| "correct_loop dt cs n ibrt (cur_brt # rest) surs buf =
     (if length (surs ! ibrt) > 0 then
        (if list_all (loc_ok cs) (surs ! ibrt) \<and> loc_ok cs cur_brt then
           (case correct_loop dt cs n (Suc ibrt) rest surs (assign_mean dt buf cur_brt (surs ! ibrt)) of
              Inl e \<Rightarrow> Inl e
            | Inr (buf', out) \<Rightarrow> Inr (buf', ProcessingSpot ibrt n # out))
         else Inl KeyError)
      else
        (case correct_loop dt cs n (Suc ibrt) rest surs buf of
           Inl e \<Rightarrow> Inl e
         | Inr (buf', out) \<Rightarrow>
             Inr (buf', ProcessingSpot ibrt n # UnableToCorrect ibrt cur_brt # out)))"

subsection \<open>\<open>correct_brightspot\<close>\<close>

text \<open>
  The function takes the heap and the reference \<open>varray\<close> and returns the reference of
  its result, the heap after the call and the printed messages, or the exception that
  ended it. On the short-circuit it returns \<open>varray\<close> itself and allocates nothing.
  The last line, \<open>varr_ds.rename(varray.name + "_DeSpotted")\<close>, raises \<open>TypeError\<close> when the
  video has no name.
\<close>

definition correct_brightspot ::
  "heap \<Rightarrow> video \<Rightarrow> spots \<Rightarrow> int \<Rightarrow> int \<Rightarrow> bool \<Rightarrow> py_error + (video \<times> heap \<times> diag list)" where
  "correct_brightspot h varray sp window spot_thres inplace =
     (if \<not> s_sum sp > 0 then Inr (varray, h, [Correcting, NoSpots])
      else
        let (varr_ds, h1) = (if \<not> inplace then copy_video h varray else (varray, h));
            brt = brt_list sp spot_thres
        in (case sur_list (v_coords varr_ds) window brt brt of
              Inl e \<Rightarrow> Inl e
            | Inr surs \<Rightarrow>
                (case correct_loop (v_dtype varr_ds) (v_coords varr_ds) (length brt) 0 brt surs (samples h1 varr_ds) of
                   Inl e \<Rightarrow> Inl e
                 | Inr (buf', out) \<Rightarrow>
                     (case v_name varray of
                        None \<Rightarrow> Inl TypeError
                      | Some name \<Rightarrow>
                          Inr (varr_ds\<lparr>v_name := Some (name @ ''_DeSpotted'')\<rparr>,
                               h1\<lparr>cells := (cells h1)(v_data varr_ds := buf')\<rparr>,
                               Correcting # out @ [CorrectionDone])))))"

subsection \<open>Data of the detectors\<close>

text \<open>
  The detectors read the video by position. \<open>varray\<close> is the same kind of array as
  \<open>video\<close> above, seen through \<open>rolling\<close> and \<open>mean\<close>: the labels of \<open>frame\<close>, the
  extents of \<open>height\<close> and \<open>width\<close>, and the sample at every position (frame, row, column).
  The dimensions are in the order (\<open>frame\<close>, \<open>height\<close>, \<open>width\<close>), and \<open>height\<close> and
  \<open>width\<close> carry the integer index 0, 1, 2, ..., so that the label of a rolling window,
  the label of its last element, is the position of that element.
\<close>

record varray =
  va_frame :: "int list"
  va_height :: nat
  va_width :: nat
  va_values :: "nat \<Rightarrow> nat \<Rightarrow> nat \<Rightarrow> real"

subsection \<open>\<open>detect_brightspot\<close>\<close>

text \<open>\<open>meanfm = varray.mean(dim='frame')\<close>.\<close>

definition meanfm :: "varray \<Rightarrow> nat \<Rightarrow> nat \<Rightarrow> real" where
  "meanfm v r c = mean (map (\<lambda>f. va_values v f r c) [0..<length (va_frame v)])"

text \<open>
  Iterating \<open>arr.rolling(dim=window)\<close> yields one window per position \<open>i\<close> of the
  dimension: its label and the slice from \<open>max (i + 1 - window) 0\<close> up to \<open>i + 1\<close>. The
  first \<open>window - 1\<close> windows are shorter than \<open>window\<close>.
\<close>

definition rolling :: "nat \<Rightarrow> int \<Rightarrow> (int \<times> nat \<times> nat) list" where
  "rolling n window = map (\<lambda>i. (int i, nat (max 0 (int (Suc i) - window)), Suc i)) [0..<n]"

text \<open>
  \<open>ih % step\<close>: the label is a numpy integer, and numpy's remainder by zero is 0 (with a
  warning) where Python's would raise.
\<close>

definition np_mod :: "int \<Rightarrow> int \<Rightarrow> int" where
  "np_mod a b = (if b = 0 then 0 else a mod b)"

text \<open>The samples of the window \<open>pw\<close>: rows \<open>hs..<he\<close> and columns \<open>ws..<we\<close> of the mean frame.\<close>

definition window_data :: "(nat \<Rightarrow> nat \<Rightarrow> real) \<Rightarrow> nat \<Rightarrow> nat \<Rightarrow> nat \<Rightarrow> nat \<Rightarrow> real list list" where
  "window_data m hs he ws we = map (\<lambda>r. map (\<lambda>c. m r c) [ws..<we]) [hs..<he]"

text \<open>
  \<open>xr.apply_ufunc(zscore, pw)\<close> calls \<open>scipy.stats.zscore\<close> on the array of the window with
  the defaults of that function, \<open>axis=0\<close> and \<open>ddof=0\<close>: every line along the first
  axis, that is every column of the window, is centred on its own mean and divided by
  its own standard deviation. A column without variance gives 0/0, which is NaN.
\<close>

definition zscore :: "real list list \<Rightarrow> real option list list" where
  "zscore a =
     map (\<lambda>row.
        map (\<lambda>j. let col = map (\<lambda>r. r ! j) a;
                    mu = mean col;
                    sd = sqrt (mean (map (\<lambda>x. (x - mu)\<^sup>2) col))
                in if sd = 0 then None else Some ((row ! j - mu) / sd))
          [0..<length row]) a"

text \<open>\<open>mean_z.min()\<close> skips NaN and is NaN when nothing is left.\<close>

definition nanmin :: "real option list list \<Rightarrow> real option" where
  "nanmin z = (let xs = concat (map (\<lambda>x. case x of None \<Rightarrow> [] | Some y \<Rightarrow> [y]) (concat z))
               in if xs = [] then None else Some (Min (set xs)))"

text \<open>
  \<open>if not thres: cur_thres = -mean_z.min().values else: cur_thres = thres\<close>. The test
  \<open>not thres\<close> is true for \<open>None\<close> and for the number 0.
\<close>

definition cur_thres :: "real option \<Rightarrow> real option list list \<Rightarrow> real option" where
  "cur_thres thres mean_z =
     (if thres = None \<or> thres = Some 0 then map_option uminus (nanmin mean_z) else thres)"

text \<open>\<open>x > y\<close> on floats: false when either side is NaN.\<close>

definition gt :: "real option \<Rightarrow> real option \<Rightarrow> bool" where
  "gt x y = (case (x, y) of (Some a, Some b) \<Rightarrow> a > b | _ \<Rightarrow> False)"

text \<open>\<open>mean_z > cur_thres\<close>.\<close>

definition tile_flags :: "(nat \<Rightarrow> nat \<Rightarrow> real) \<Rightarrow> real option \<Rightarrow> nat \<Rightarrow> nat \<Rightarrow> nat \<Rightarrow> nat \<Rightarrow> bool list list" where
  "tile_flags m thres hs he ws we =
     (let mean_z = zscore (window_data m hs he ws we);
          t = cur_thres thres mean_z
      in map (map (\<lambda>z. gt z t)) mean_z)"

text \<open>
  \<open>spots.loc[{'height': slice(ih - window + 1, ih), 'width': slice(iw - window + 1, iw)}] += \<dots>\<close>:
  a label slice includes both ends, and for a window of full size these labels are the
  rows \<open>hs..<he\<close> and the columns \<open>ws..<we\<close> of the window itself.
\<close>

definition add_tile :: "bool list list \<Rightarrow> nat \<Rightarrow> nat \<Rightarrow> nat \<Rightarrow> nat \<Rightarrow> (nat \<Rightarrow> nat \<Rightarrow> int) \<Rightarrow> nat \<Rightarrow> nat \<Rightarrow> int" where
  "add_tile fl hs he ws we spots =
     (\<lambda>r c. if hs \<le> r \<and> r < he \<and> ws \<le> c \<and> c < we \<and> fl ! (r - hs) ! (c - ws)
             then spots r c + 1 else spots r c)"

text \<open>The inner loop \<open>for iw, pw in ph.rolling(width=window)\<close>.\<close>

definition width_loop ::
  "(nat \<Rightarrow> nat \<Rightarrow> real) \<Rightarrow> real option \<Rightarrow> int \<Rightarrow> int \<Rightarrow> nat \<Rightarrow> nat \<Rightarrow> (int \<times> nat \<times> nat) list
     \<Rightarrow> (nat \<Rightarrow> nat \<Rightarrow> int) \<Rightarrow> nat \<Rightarrow> nat \<Rightarrow> int" where
  "width_loop m thres window step hs he ws spots =
     foldl (\<lambda>spots (iw, ws, we).
        if np_mod iw step = 0 \<and> int (he - hs) = window \<and> int (we - ws) = window
        then add_tile (tile_flags m thres hs he ws we) hs he ws we spots
        else spots) spots ws"

text \<open>The outer loop \<open>for ih, ph in meanfm.rolling(height=window)\<close>.\<close>

definition height_loop ::
  "(nat \<Rightarrow> nat \<Rightarrow> real) \<Rightarrow> real option \<Rightarrow> int \<Rightarrow> int \<Rightarrow> nat \<Rightarrow> (int \<times> nat \<times> nat) list
     \<Rightarrow> (nat \<Rightarrow> nat \<Rightarrow> int) \<Rightarrow> nat \<Rightarrow> nat \<Rightarrow> int" where
  "height_loop m thres window step w hs spots =
     foldl (\<lambda>spots (ih, hs, he).
        if np_mod ih step = 0
        then width_loop m thres window step hs he (rolling w window) spots
        else spots) spots hs"

text \<open>
  \<open>varray.sel(frame=0)\<close> raises \<open>KeyError\<close> when no frame has the label 0, and \<open>rolling\<close>
  raises \<open>ValueError\<close> for a window that is not positive. The mask starts as
  \<open>np.zeros_like\<close>.
\<close>

definition detect_brightspot ::
  "varray \<Rightarrow> real option \<Rightarrow> int \<Rightarrow> int \<Rightarrow> py_error + (nat \<Rightarrow> nat \<Rightarrow> int)" where
  "detect_brightspot v thres window step =
     (if 0 \<notin> set (va_frame v) then Inl KeyError
      else if window \<le> 0 then Inl ValueError
      else Inr (height_loop (meanfm v) thres window step (va_width v)
                  (rolling (va_height v) window) (\<lambda>r c. 0)))"

subsection \<open>\<open>detect_brightspot_perframe\<close>\<close>

text \<open>
  \<open>f.quantile(thres, interpolation='lower')\<close> over all samples of the frame: numpy sorts
  the \<open>n\<close> samples and takes the one at position \<open>\<lfloor>thres * (n - 1)\<rfloor>\<close>. It is NaN for a
  frame without samples.
\<close>

definition quantile_lower :: "real \<Rightarrow> real list \<Rightarrow> real option" where
  "quantile_lower q xs =
     (if xs = [] then None else Some (sort xs ! nat \<lfloor>q * real (length xs - 1)\<rfloor>))"

definition frame_samples :: "varray \<Rightarrow> nat \<Rightarrow> real list" where
  "frame_samples v f =
     concat (map (\<lambda>r. map (\<lambda>c. va_values v f r c) [0..<va_width v]) [0..<va_height v])"

text \<open>The delayed function \<open>lambda f: f > f.quantile(thres, interpolation='lower')\<close>, at one
  sample \<open>x\<close> of the frame with the samples \<open>fm\<close>.\<close>

definition detect_frame :: "real \<Rightarrow> real list \<Rightarrow> real \<Rightarrow> bool" where
  "detect_frame thres fm x = gt (Some x) (quantile_lower thres fm)"

text \<open>
  \<open>rolling(frame=1)\<close> yields every frame on its own. \<open>xr.concat\<close> raises \<open>ValueError\<close>
  when there is no frame, and numpy raises \<open>ValueError\<close> for a quantile outside [0, 1].
\<close>

definition detect_brightspot_perframe ::
  "varray \<Rightarrow> real \<Rightarrow> py_error + (nat \<Rightarrow> nat \<Rightarrow> nat \<Rightarrow> bool)" where
  "detect_brightspot_perframe v thres =
     (if va_frame v = [] then Inl ValueError
      else if thres < 0 \<or> 1 < thres then Inl ValueError
      else Inr (\<lambda>f r c. detect_frame thres (frame_samples v f) (va_values v f r c)))"

subsection \<open>The wording of the specification\<close>

text \<open>
  The definitions of this subsection follow the specification, not the code; the
  theorems below compare them with the code.

  The candidate neighbours of a flagged point \<open>p\<close>: the points over the same dimensions
  whose coordinate on every dimension is within \<open>window\<close> of that of \<open>p\<close> and is a
  coordinate of the video on that dimension.
\<close>

definition in_box :: "(string \<rightharpoonup> int list) \<Rightarrow> int \<Rightarrow> point \<Rightarrow> point \<Rightarrow> bool" where
  "in_box cs window p q =
     list_all2 (\<lambda>(dm, co) (dm', c). dm' = dm \<and> \<bar>c - co\<bar> \<le> window \<and>
        (case cs dm of None \<Rightarrow> False | Some xs \<Rightarrow> c \<in> set xs)) p q"

text \<open>
  The arithmetic mean, over the neighbours \<open>s\<close> of a flagged point, of the samples that
  the video \<open>v\<close> holds in the heap \<open>h\<close> at the neighbours' places, at the location \<open>l\<close>.
\<close>

definition neighbour_mean :: "heap \<Rightarrow> video \<Rightarrow> location \<Rightarrow> point list \<Rightarrow> real" where
  "neighbour_mean h v l s = mean (map (\<lambda>q. samples h v (at_point l q)) s)"

text \<open>
  The coordinate tuple of an entry of the mask: on the \<open>k\<close>-th dimension of the mask, the
  label that the coordinate of that dimension holds at the position \<open>idx ! k\<close>.
\<close>

definition coordinate_tuple :: "spots \<Rightarrow> nat list \<Rightarrow> point" where
  "coordinate_tuple sp idx =
     map (\<lambda>k. (s_dims sp ! k, s_coords sp (s_dims sp ! k) ! (idx ! k))) [0..<length (s_dims sp)]"

text \<open>The sample of the returned video at a location, when the call returns.\<close>

definition returned_sample :: "py_error + (video \<times> heap \<times> diag list) \<Rightarrow> location \<Rightarrow> real option" where
  "returned_sample res l =
     (case res of Inl e \<Rightarrow> None | Inr (v', h', out) \<Rightarrow> Some (samples h' v' l))"

text \<open>The lower of the two sorted samples that bracket the position \<open>q * (n - 1)\<close>.\<close>

definition lower_of_bracket :: "real \<Rightarrow> real list \<Rightarrow> real" where
  "lower_of_bracket q xs =
     (let pos = q * real (length xs - 1)
      in min (sort xs ! nat \<lfloor>pos\<rfloor>) (sort xs ! nat \<lceil>pos\<rceil>))"

text \<open>
  The tiles that are processed, each named by the position of its last row and last
  column: both positions are multiples of \<open>step\<close>, and the tile has \<open>window\<close> rows and
  \<open>window\<close> columns.
\<close>

definition processed_tiles :: "nat \<Rightarrow> nat \<Rightarrow> int \<Rightarrow> int \<Rightarrow> (nat \<times> nat) list" where
  "processed_tiles h w window step =
     filter (\<lambda>(i, j). int i mod step = 0 \<and> int j mod step = 0 \<and>
                      window \<le> int i + 1 \<and> window \<le> int j + 1)
       (List.product [0..<h] [0..<w])"

definition covers :: "int \<Rightarrow> nat \<times> nat \<Rightarrow> nat \<Rightarrow> nat \<Rightarrow> bool" where
  "covers window t r c =
     (int (fst t) - window < int r \<and> r \<le> fst t \<and> int (snd t) - window < int c \<and> c \<le> snd t)"

text \<open>Whether the tile \<open>t\<close> flags the pixel (\<open>r\<close>, \<open>c\<close>), by the test of the code.\<close>

definition tile_flagged :: "(nat \<Rightarrow> nat \<Rightarrow> real) \<Rightarrow> real option \<Rightarrow> int \<Rightarrow> nat \<times> nat \<Rightarrow> nat \<Rightarrow> nat \<Rightarrow> bool" where
  "tile_flagged m thres window t r c =
     (let hs = Suc (fst t) - nat window; ws = Suc (snd t) - nat window
      in tile_flags m thres hs (Suc (fst t)) ws (Suc (snd t)) ! (r - hs) ! (c - ws))"

text \<open>
  The z-score of the specification: zero mean and unit variance over the whole pixel
  population of the tile.
\<close>

definition zscore_population :: "real list list \<Rightarrow> real option list list" where
  "zscore_population a =
     (let xs = concat a;
          mu = mean xs;
          sd = sqrt (mean (map (\<lambda>x. (x - mu)\<^sup>2) xs))
      in map (map (\<lambda>x. if sd = 0 then None else Some ((x - mu) / sd))) a)"

text \<open>The first row of the window that ends at position \<open>i\<close>.\<close>

definition window_start :: "int \<Rightarrow> nat \<Rightarrow> nat" where
  "window_start window i = nat (max 0 (int (Suc i) - window))"

subsection \<open>Example inputs\<close>

text \<open>
  A floating-point video of two frames with 2 x 2 pixels, at the heights 10, 11 and the
  widths 20, 21, whose samples do not change over time: 100 at (10, 20) and 1, 2, 3 at
  the three other pixels. The same video without a name. An 8-bit video with 100 at
  (10, 20) and 1, 2, 4 at the other pixels.
\<close>

definition ex_coords :: "string \<rightharpoonup> int list" where
  "ex_coords = [''frame'' \<mapsto> [0, 1], ''height'' \<mapsto> [10, 11], ''width'' \<mapsto> [20, 21]]"

definition ex_video :: video where
  "ex_video = \<lparr>v_name = Some ''Y'', v_dtype = Float, v_coords = ex_coords, v_data = 0\<rparr>"

definition ex_video_unnamed :: video where
  "ex_video_unnamed = \<lparr>v_name = None, v_dtype = Float, v_coords = ex_coords, v_data = 0\<rparr>"

definition ex_video8 :: video where
  "ex_video8 = \<lparr>v_name = Some ''Y'', v_dtype = UInt8, v_coords = ex_coords, v_data = 0\<rparr>"

definition ex_buffer :: buffer where
  "ex_buffer = (\<lambda>l. if l ''height'' = 10 \<and> l ''width'' = 20 then 100
                     else if l ''height'' = 10 \<and> l ''width'' = 21 then 1
                     else if l ''height'' = 11 \<and> l ''width'' = 20 then 2
                     else 3)"

definition ex_buffer8 :: buffer where
  "ex_buffer8 = (\<lambda>l. if l ''height'' = 10 \<and> l ''width'' = 20 then 100
                      else if l ''height'' = 10 \<and> l ''width'' = 21 then 1
                      else if l ''height'' = 11 \<and> l ''width'' = 20 then 2
                      else 4)"

definition ex_heap :: heap where
  "ex_heap = \<lparr>cells = (\<lambda>a. ex_buffer), next_free = 1\<rparr>"

definition ex_heap8 :: heap where
  "ex_heap8 = \<lparr>cells = (\<lambda>a. ex_buffer8), next_free = 1\<rparr>"

text \<open>The locations of the pixels (10, 20) and (11, 21) in the frame 0.\<close>

definition ex_origin :: location where
  "ex_origin = (\<lambda>dm. if dm = ''height'' then 10 else if dm = ''width'' then 20 else 0)"

definition ex_far :: location where
  "ex_far = (\<lambda>dm. if dm = ''height'' then 11 else if dm = ''width'' then 21 else 0)"

text \<open>
  Masks over (\<open>height\<close>, \<open>width\<close>) with the coordinates of the video: one vote count of 11
  at the entry (0, 0), which is the pixel (10, 20); 11 everywhere; 11 at the entry (0, 0)
  and -11 at the entry (0, 1); 0 everywhere. And a mask over (\<open>frame\<close>, \<open>height\<close>,
  \<open>width\<close>) with the frame labels 5, 6 and a single 1 at the entry (1, 0, 1).
\<close>

definition ex_spots :: spots where
  "ex_spots = \<lparr>s_dims = [''height'', ''width''],
               s_coords = (\<lambda>dm. if dm = ''height'' then [10, 11] else [20, 21]),
               s_values = (\<lambda>idx. if idx = [0, 0] then 11 else 0)\<rparr>"

definition ex_spots_full :: spots where
  "ex_spots_full = \<lparr>s_dims = [''height'', ''width''],
               s_coords = (\<lambda>dm. if dm = ''height'' then [10, 11] else [20, 21]),
               s_values = (\<lambda>idx. 11)\<rparr>"

definition ex_spots_neg :: spots where
  "ex_spots_neg = \<lparr>s_dims = [''height'', ''width''],
               s_coords = (\<lambda>dm. if dm = ''height'' then [10, 11] else [20, 21]),
               s_values = (\<lambda>idx. if idx = [0, 0] then 11 else if idx = [0, 1] then - 11 else 0)\<rparr>"

definition ex_spots_zero :: spots where
  "ex_spots_zero = \<lparr>s_dims = [''height'', ''width''],
               s_coords = (\<lambda>dm. if dm = ''height'' then [10, 11] else [20, 21]),
               s_values = (\<lambda>idx. 0)\<rparr>"

definition ex_spots_perframe :: spots where
  "ex_spots_perframe = \<lparr>s_dims = [''frame'', ''height'', ''width''],
               s_coords = (\<lambda>dm. if dm = ''frame'' then [5, 6]
                                 else if dm = ''height'' then [10, 11] else [20, 21]),
               s_values = (\<lambda>idx. if idx = [1, 0, 1] then 1 else 0)\<rparr>"

text \<open>The coordinates of a video of 3 x 3 pixels.\<close>

definition ex_corner :: "string \<rightharpoonup> int list" where
  "ex_corner = [''height'' \<mapsto> [0, 1, 2], ''width'' \<mapsto> [0, 1, 2]]"

text \<open>Videos of one frame with 2 x 2 pixels, for the detectors.\<close>

definition ex_quad :: varray where
  "ex_quad = \<lparr>va_frame = [0], va_height = 2, va_width = 2,
       va_values = (\<lambda>f r c. [[1, 2], [3, 4]] ! r ! c)\<rparr>"

definition ex_tile :: varray where
  "ex_tile = \<lparr>va_frame = [0], va_height = 2, va_width = 2,
       va_values = (\<lambda>f r c. [[0, 6], [8, 14]] ! r ! c)\<rparr>"

definition ex_zero :: varray where
  "ex_zero = \<lparr>va_frame = [0], va_height = 2, va_width = 2,
       va_values = (\<lambda>f r c. [[0, 0], [2, 6]] ! r ! c)\<rparr>"

definition ex_const :: varray where
  "ex_const = \<lparr>va_frame = [0], va_height = 2, va_width = 2, va_values = (\<lambda>f r c. 5)\<rparr>"

section \<open>Properties of \<open>correct_brightspot\<close>\<close>

subsection \<open>Neighbour sets\<close>

lemma axis_range_iff: "c \<in> set (axis_range w co xs) \<longleftrightarrow> \<bar>c - co\<bar> \<le> w \<and> c \<in> set xs"
  by (auto simp: axis_range_def)

lemma cur_sur_list_Nil: "cur_sur_list [] = [[]]"
  by (simp add: cur_sur_list_def)

lemma cur_sur_list_Cons:
  "set (cur_sur_list ((dm, rg) # rs)) = {(dm, x) # q' | x q'. x \<in> set rg \<and> q' \<in> set (cur_sur_list rs)}"
proof -
  have "set (cur_sur_list ((dm, rg) # rs)) =
          (\<lambda>(x, cord). (dm, x) # zip (map fst rs) cord) ` (set rg \<times> set (product_lists (map snd rs)))"
    by (auto simp: cur_sur_list_def image_iff)
  also have "\<dots> = {(dm, x) # q' | x q'. x \<in> set rg \<and> q' \<in> set (cur_sur_list rs)}"
    by (auto simp: cur_sur_list_def image_iff)
  finally show ?thesis .
qed

lemma in_box_Nil: "in_box cs w [] q \<longleftrightarrow> q = []"
  by (simp add: in_box_def)

lemma in_box_Cons:
  "in_box cs w ((dm, co) # p) q \<longleftrightarrow>
     (\<exists>c q'. q = (dm, c) # q' \<and> \<bar>c - co\<bar> \<le> w \<and>
        (case cs dm of None \<Rightarrow> False | Some xs \<Rightarrow> c \<in> set xs) \<and> in_box cs w p q')"
  by (auto simp: in_box_def list_all2_Cons1)

lemma cur_sur_in_box:
  "cur_sur cs w p = Some sur \<Longrightarrow> q \<in> set (cur_sur_list sur) \<longleftrightarrow> in_box cs w p q"
proof (induction cs w p arbitrary: sur q rule: cur_sur.induct)
  case (1 cs window)
  then show ?case by (simp add: cur_sur_list_Nil in_box_Nil)
next
  case (2 cs window dm co rest)
  from "2.prems" obtain xs rs where xs: "cs dm = Some xs"
    and rs: "cur_sur cs window rest = Some rs"
    and sur: "sur = (dm, axis_range window co xs) # rs"
    by (auto split: option.splits)
  have ih: "\<And>q'. q' \<in> set (cur_sur_list rs) \<longleftrightarrow> in_box cs window rest q'"
    using "2.IH" [OF xs rs] .
  show ?case
    unfolding sur cur_sur_list_Cons in_box_Cons
    by (auto simp: xs ih axis_range_iff)
qed

lemma in_box_fst: "in_box cs w p q \<Longrightarrow> map fst q = map fst p"
  unfolding in_box_def by (induction p q rule: list_all2_induct) auto

lemma in_box_loc_ok: "in_box cs w p q \<Longrightarrow> loc_ok cs q"
  unfolding in_box_def loc_ok_def by (induction p q rule: list_all2_induct) auto

lemma neighbours_set:
  "neighbours cs w brt p = Some s \<Longrightarrow> set s = {q. in_box cs w p q} - set brt"
  by (auto simp: neighbours_def cur_sur_in_box split: option.splits)

lemma neighbours_distinct: "neighbours cs w brt p = Some s \<Longrightarrow> distinct s"
  by (auto simp: neighbours_def split: option.splits)

lemma sur_list_nth:
  "sur_list cs w brt ps = Inr ss \<Longrightarrow>
     length ss = length ps \<and> (\<forall>i<length ps. neighbours cs w brt (ps ! i) = Some (ss ! i))"
proof (induction ps arbitrary: ss)
  case Nil
  then show ?case by simp
next
  case (Cons p ps)
  from Cons.prems obtain s ss' where s: "neighbours cs w brt p = Some s"
    and ss': "sur_list cs w brt ps = Inr ss'" and ss: "ss = s # ss'"
    by (auto split: option.splits sum.splits)
  from Cons.IH [OF ss'] show ?case
    by (auto simp: ss s nth_Cons split: nat.splits)
qed

lemma cur_sur_defined:
  "loc_ok cs p \<Longrightarrow> \<exists>sur. cur_sur cs w p = Some sur"
  by (induction cs w p rule: cur_sur.induct) (auto simp: loc_ok_def split: option.splits)

lemma sur_list_defined:
  "\<forall>p\<in>set ps. loc_ok cs p \<Longrightarrow> \<exists>ss. sur_list cs w brt ps = Inr ss"
proof (induction ps)
  case Nil
  then show ?case by simp
next
  case (Cons p ps)
  then obtain sur where "cur_sur cs w p = Some sur"
    using cur_sur_defined [of cs p w] by auto
  moreover from Cons obtain ss where "sur_list cs w brt ps = Inr ss" by auto
  ultimately show ?case by (simp add: neighbours_def)
qed

subsection \<open>Selection by label\<close>

lemma matches_Nil: "matches [] l"
  by (simp add: matches_def)

lemma matches_Cons: "matches ((dm, c) # p) l \<longleftrightarrow> l dm = c \<and> matches p l"
  by (simp add: matches_def)

lemma at_point_Cons_same: "at_point l ((dm, c) # q) dm = c"
  by (simp add: at_point_def)

lemma at_point_Cons_other: "dm' \<noteq> dm \<Longrightarrow> at_point l ((dm, c) # q) dm' = at_point l q dm'"
  by (simp add: at_point_def)

lemma at_point_skip:
  "dm \<notin> fst ` set p \<Longrightarrow> matches p (at_point l ((dm, c) # q)) = matches p (at_point l q)"
proof (induction p)
  case Nil
  show ?case by (simp add: matches_Nil)
next
  case (Cons a p)
  obtain d x where a: "a = (d, x)" by (cases a)
  from Cons.prems a have "d \<noteq> dm" and "dm \<notin> fst ` set p" by auto
  with Cons.IH show ?case
    by (simp add: a matches_Cons at_point_Cons_other)
qed

lemma matches_at_point_iff:
  "map fst q = map fst r \<Longrightarrow> distinct (map fst r) \<Longrightarrow> matches r (at_point l q) \<longleftrightarrow> r = q"
proof (induction r arbitrary: q)
  case Nil
  then show ?case by (simp add: matches_Nil)
next
  case (Cons a r)
  obtain dm c where a: "a = (dm, c)" by (cases a)
  from Cons.prems(1) a obtain c' q' where q: "q = (dm, c') # q'" and fst': "map fst q' = map fst r"
    by (cases q) auto
  from Cons.prems(2) a have notin: "dm \<notin> fst ` set r" and dist: "distinct (map fst r)" by simp_all
  have "matches (a # r) (at_point l q) \<longleftrightarrow> c' = c \<and> matches r (at_point l q')"
    unfolding a q matches_Cons at_point_Cons_same at_point_skip [OF notin] ..
  also have "\<dots> \<longleftrightarrow> c' = c \<and> r = q'"
    using Cons.IH [OF fst' dist] by simp
  also have "\<dots> \<longleftrightarrow> a # r = q"
    unfolding a q by auto
  finally show ?case .
qed

lemma matches_unique:
  "matches p l \<Longrightarrow> matches r l \<Longrightarrow> map fst p = map fst r \<Longrightarrow> p = r"
proof (induction p arbitrary: r)
  case Nil
  then show ?case by simp
next
  case (Cons a p)
  obtain dm c where a: "a = (dm, c)" by (cases a)
  from Cons.prems(3) a obtain c' r' where r: "r = (dm, c') # r'" and fst': "map fst p = map fst r'"
    by (cases r) auto
  from Cons.prems(1,2) have "c = c'" and "matches p l" and "matches r' l"
    unfolding a r matches_Cons by simp_all
  with Cons.IH [OF _ _ fst'] show ?case by (simp add: a r)
qed

lemma matches_project:
  "matches p l \<Longrightarrow> p = map (\<lambda>dm. (dm, l dm)) (map fst p)"
proof (induction p)
  case Nil
  show ?case by simp
next
  case (Cons a p)
  obtain dm c where a: "a = (dm, c)" by (cases a)
  from Cons.prems have "l dm = c" and "matches p l" unfolding a matches_Cons by simp_all
  with Cons.IH show ?case by (simp add: a)
qed

subsection \<open>The correction loop\<close>

lemma segment_Cons:
  assumes "\<forall>k<length (p # rest). P (i + k) ((p # rest) ! k)"
  shows "P i p" and "\<forall>k<length rest. P (Suc i + k) (rest ! k)"
proof -
  from assms have "P (i + 0) ((p # rest) ! 0)" by blast
  then show "P i p" by simp
  show "\<forall>k<length rest. P (Suc i + k) (rest ! k)"
  proof (intro allI impI)
    fix k assume "k < length rest"
    then have "Suc k < length (p # rest)" by simp
    with assms have "P (i + Suc k) ((p # rest) ! Suc k)" by blast
    then show "P (Suc i + k) (rest ! k)" by simp
  qed
qed

lemma correct_loop_step:
  assumes "correct_loop dt cs n i (p # rest) surs b = Inr (b', out)"
  shows "\<exists>out'. correct_loop dt cs n (Suc i) rest surs
                  (if surs ! i = [] then b else assign_mean dt b p (surs ! i)) = Inr (b', out')
            \<and> out = (if surs ! i = [] then [ProcessingSpot i n, UnableToCorrect i p] else [ProcessingSpot i n]) @ out'
            \<and> (surs ! i \<noteq> [] \<longrightarrow> list_all (loc_ok cs) (surs ! i) \<and> loc_ok cs p)"
proof (cases "surs ! i = []")
  case True
  with assms show ?thesis by (simp split: sum.splits prod.splits)
next
  case False
  with assms show ?thesis by (simp split: sum.splits prod.splits if_splits)
qed

lemma correct_loop_frame:
  assumes "correct_loop dt cs n i rest surs b = Inr (b', out)"
      and "\<forall>k<length rest. surs ! (i + k) = f (rest ! k)"
      and "\<forall>r\<in>set rest. f r \<noteq> [] \<longrightarrow> \<not> matches r l"
    shows "b' l = b l"
  using assms
proof (induction rest arbitrary: i b out)
  case Nil
  then show ?case by simp
next
  case (Cons p rest)
  have here: "surs ! i = f p"
    and later: "\<forall>k<length rest. surs ! (Suc i + k) = f (rest ! k)"
    using segment_Cons [where P = "\<lambda>j r. surs ! j = f r", OF Cons.prems(2)] .
  from Cons.prems(3) have rest: "\<forall>r\<in>set rest. f r \<noteq> [] \<longrightarrow> \<not> matches r l" by simp
  from correct_loop_step [OF Cons.prems(1)] obtain out' where
    run: "correct_loop dt cs n (Suc i) rest surs (if f p = [] then b else assign_mean dt b p (f p)) = Inr (b', out')"
    unfolding here by blast
  from Cons.IH [OF run later rest]
  have "b' l = (if f p = [] then b else assign_mean dt b p (f p)) l" .
  moreover from Cons.prems(3) have "f p \<noteq> [] \<Longrightarrow> \<not> matches p l" by simp
  ultimately show ?case by (simp add: assign_mean_def)
qed

lemma correct_loop_mean:
  assumes "correct_loop dt cs n i rest surs b = Inr (b', out)"
      and "\<forall>k<length rest. surs ! (i + k) = f (rest ! k)"
      and "\<forall>r\<in>set rest. f r \<noteq> [] \<longrightarrow> (\<forall>q\<in>set s. \<not> matches r (at_point l q))"
      and "\<forall>r\<in>set rest. f r \<noteq> [] \<and> matches r l \<longrightarrow> f r = s"
      and "(\<exists>r\<in>set rest. f r \<noteq> [] \<and> matches r l)
             \<or> b l = to_dtype dt (mean (map (\<lambda>q. b (at_point l q)) s))"
    shows "b' l = to_dtype dt (mean (map (\<lambda>q. b (at_point l q)) s))"
  using assms
proof (induction rest arbitrary: i b out)
  case Nil
  then show ?case by simp
next
  case (Cons p rest)
  have here: "surs ! i = f p"
    and later: "\<forall>k<length rest. surs ! (Suc i + k) = f (rest ! k)"
    using segment_Cons [where P = "\<lambda>j r. surs ! j = f r", OF Cons.prems(2)] .
  from Cons.prems(3) have h1: "\<forall>r\<in>set rest. f r \<noteq> [] \<longrightarrow> (\<forall>q\<in>set s. \<not> matches r (at_point l q))"
    by simp
  from Cons.prems(4) have h2: "\<forall>r\<in>set rest. f r \<noteq> [] \<and> matches r l \<longrightarrow> f r = s" by simp
  let ?b1 = "if f p = [] then b else assign_mean dt b p (f p)"
  from correct_loop_step [OF Cons.prems(1)] obtain out' where
    run: "correct_loop dt cs n (Suc i) rest surs ?b1 = Inr (b', out')"
    unfolding here by blast
  from Cons.prems(3) have "f p \<noteq> [] \<Longrightarrow> \<forall>q\<in>set s. \<not> matches p (at_point l q)" by simp
  then have same: "map (\<lambda>q. ?b1 (at_point l q)) s = map (\<lambda>q. b (at_point l q)) s"
    by (simp add: assign_mean_def)
  have "(\<exists>r\<in>set rest. f r \<noteq> [] \<and> matches r l)
          \<or> ?b1 l = to_dtype dt (mean (map (\<lambda>q. ?b1 (at_point l q)) s))"
  proof (cases "f p \<noteq> [] \<and> matches p l")
    case True
    with Cons.prems(4) have "f p = s" by simp
    with True have "?b1 l = to_dtype dt (mean (map (\<lambda>q. b (at_point l q)) s))"
      by (simp add: assign_mean_def)
    then show ?thesis unfolding same by (rule disjI2)
  next
    case False
    then have "?b1 l = b l" by (auto simp: assign_mean_def)
    moreover from False Cons.prems(5)
    have "(\<exists>r\<in>set rest. f r \<noteq> [] \<and> matches r l)
            \<or> b l = to_dtype dt (mean (map (\<lambda>q. b (at_point l q)) s))"
      by auto
    ultimately show ?thesis unfolding same by simp
  qed
  from Cons.IH [OF run later h1 h2 this] show ?case unfolding same .
qed

lemma correct_loop_unable:
  assumes "correct_loop dt cs n i rest surs b = Inr (b', out)"
      and "k < length rest" and "surs ! (i + k) = []"
    shows "UnableToCorrect (i + k) (rest ! k) \<in> set out"
  using assms
proof (induction rest arbitrary: i b out k)
  case Nil
  then show ?case by simp
next
  case (Cons p rest)
  from correct_loop_step [OF Cons.prems(1)] obtain b1 out' where
    run: "correct_loop dt cs n (Suc i) rest surs b1 = Inr (b', out')"
    and out: "out = (if surs ! i = [] then [ProcessingSpot i n, UnableToCorrect i p] else [ProcessingSpot i n]) @ out'"
    by blast
  show ?case
  proof (cases k)
    case 0
    with Cons.prems(3) out show ?thesis by simp
  next
    case (Suc k')
    with Cons.prems have "k' < length rest" "surs ! (Suc i + k') = []" by auto
    from Cons.IH [OF run this] show ?thesis by (simp add: out Suc)
  qed
qed

lemma correct_loop_returns:
  assumes "\<forall>k<length rest. surs ! (i + k) \<noteq> [] \<longrightarrow> list_all (loc_ok cs) (surs ! (i + k)) \<and> loc_ok cs (rest ! k)"
  shows "\<exists>b' out. correct_loop dt cs n i rest surs b = Inr (b', out)"
  using assms
proof (induction rest arbitrary: i b)
  case Nil
  then show ?case by simp
next
  case (Cons p rest)
  have here: "surs ! i \<noteq> [] \<longrightarrow> list_all (loc_ok cs) (surs ! i) \<and> loc_ok cs p"
    and later: "\<forall>k<length rest. surs ! (Suc i + k) \<noteq> [] \<longrightarrow> list_all (loc_ok cs) (surs ! (Suc i + k)) \<and> loc_ok cs (rest ! k)"
    using segment_Cons [where P = "\<lambda>j r. surs ! j \<noteq> [] \<longrightarrow> list_all (loc_ok cs) (surs ! j) \<and> loc_ok cs r", OF Cons.prems] .
  let ?b1 = "if surs ! i = [] then b else assign_mean dt b p (surs ! i)"
  from Cons.IH [OF later] obtain b' out where
    "correct_loop dt cs n (Suc i) rest surs ?b1 = Inr (b', out)" by blast
  with here show ?case by (cases "surs ! i = []") simp_all
qed

subsection \<open>Flagged points\<close>

lemma s_indices_iff:
  "idx \<in> set (s_indices sp) \<longleftrightarrow>
     length idx = length (s_dims sp) \<and>
     (\<forall>k<length idx. idx ! k < length (s_coords sp (s_dims sp ! k)))"
  by (auto simp: s_indices_def product_lists_set list_all2_conv_all_nth)

lemma map_fst_map2:
  "length xs = length ys \<Longrightarrow> map (fst \<circ> (\<lambda>(x, y). (x, g x y))) (zip xs ys) = xs"
  by (induction xs ys rule: list_induct2) simp_all

lemma coord_of_fst:
  "idx \<in> set (s_indices sp) \<Longrightarrow> map fst (coord_of sp idx) = s_dims sp"
  by (simp add: coord_of_def s_indices_iff map_fst_map2)

lemma brt_list_fst:
  "p \<in> set (brt_list sp t) \<Longrightarrow> map fst p = s_dims sp"
  by (auto simp: brt_list_def coord_of_fst)

lemma sum_list_pos_int:
  fixes xs :: "int list"
  assumes "\<forall>x\<in>set xs. 0 \<le> x" and "y \<in> set xs" and "0 < y"
  shows "0 < sum_list xs"
  using assms
proof (induction xs)
  case Nil
  then show ?case by simp
next
  case (Cons x xs)
  then have nonneg: "0 \<le> sum_list xs" by (simp add: sum_list_nonneg)
  show ?case
  proof (cases "y = x")
    case True
    with Cons.prems nonneg show ?thesis by simp
  next
    case False
    with Cons have "0 < sum_list xs" by simp
    moreover from Cons.prems have "0 \<le> x" by simp
    ultimately show ?thesis by simp
  qed
qed

lemma flagged_sum_pos:
  assumes "\<forall>idx\<in>set (s_indices sp). 0 \<le> s_values sp idx"
      and "0 \<le> effective_thres sp t"
      and "p \<in> set (brt_list sp t)"
    shows "0 < s_sum sp"
proof -
  from assms(3) obtain idx where idx: "idx \<in> set (s_indices sp)"
    and big: "effective_thres sp t < s_values sp idx"
    by (auto simp: brt_list_def)
  from big assms(2) have "0 < s_values sp idx" by simp
  with assms(1) idx show ?thesis
    unfolding s_sum_def by (intro sum_list_pos_int [where y = "s_values sp idx"]) auto
qed

subsection \<open>The call\<close>

lemma copy_video_coords: "v_coords (fst (copy_video h v)) = v_coords v"
  by (simp add: copy_video_def)

lemma copy_video_dtype: "v_dtype (fst (copy_video h v)) = v_dtype v"
  by (simp add: copy_video_def)

lemma copy_video_samples: "samples (snd (copy_video h v)) (fst (copy_video h v)) = samples h v"
  by (simp add: copy_video_def samples_def)

lemma correct_brightspot_short:
  "\<not> 0 < s_sum sp \<Longrightarrow>
     correct_brightspot h varray sp window spot_thres inplace = Inr (varray, h, [Correcting, NoSpots])"
  by (simp add: correct_brightspot_def)

lemma correct_brightspot_sur_error:
  assumes "0 < s_sum sp"
      and "sur_list (v_coords varray) window (brt_list sp spot_thres) (brt_list sp spot_thres) = Inl e"
  shows "correct_brightspot h varray sp window spot_thres inplace = Inl e"
  using assms
  by (cases inplace)
     (simp_all add: correct_brightspot_def Let_def case_prod_beta copy_video_def samples_def)

lemma correct_brightspot_loop_error:
  assumes "0 < s_sum sp"
      and "sur_list (v_coords varray) window (brt_list sp spot_thres) (brt_list sp spot_thres) = Inr surs"
      and "correct_loop (v_dtype varray) (v_coords varray) (length (brt_list sp spot_thres)) 0
             (brt_list sp spot_thres) surs (samples h varray) = Inl e"
  shows "correct_brightspot h varray sp window spot_thres inplace = Inl e"
  using assms
  by (cases inplace)
     (simp_all add: correct_brightspot_def Let_def case_prod_beta copy_video_def samples_def)

lemma correct_brightspot_unnamed_error:
  assumes "0 < s_sum sp"
      and "sur_list (v_coords varray) window (brt_list sp spot_thres) (brt_list sp spot_thres) = Inr surs"
      and "correct_loop (v_dtype varray) (v_coords varray) (length (brt_list sp spot_thres)) 0
             (brt_list sp spot_thres) surs (samples h varray) = Inr (buf', out')"
      and "v_name varray = None"
  shows "correct_brightspot h varray sp window spot_thres inplace = Inl TypeError"
  using assms
  by (cases inplace)
     (simp_all add: correct_brightspot_def Let_def case_prod_beta copy_video_def samples_def)

lemma correct_brightspot_result:
  assumes "0 < s_sum sp"
      and "sur_list (v_coords varray) window (brt_list sp spot_thres) (brt_list sp spot_thres) = Inr surs"
      and "correct_loop (v_dtype varray) (v_coords varray) (length (brt_list sp spot_thres)) 0
             (brt_list sp spot_thres) surs (samples h varray) = Inr (buf', out')"
      and "v_name varray = Some name"
  shows "\<exists>v' h'. correct_brightspot h varray sp window spot_thres inplace
                    = Inr (v', h', Correcting # out' @ [CorrectionDone])
                \<and> samples h' v' = buf'"
  using assms
  by (cases inplace)
     (simp_all add: correct_brightspot_def Let_def case_prod_beta copy_video_def samples_def)

lemma correct_brightspot_Inr:
  assumes run: "correct_brightspot h varray sp window spot_thres inplace = Inr (v', h', out)"
      and pos: "0 < s_sum sp"
  obtains surs out' name where
    "sur_list (v_coords varray) window (brt_list sp spot_thres) (brt_list sp spot_thres) = Inr surs"
    "correct_loop (v_dtype varray) (v_coords varray) (length (brt_list sp spot_thres)) 0
        (brt_list sp spot_thres) surs (samples h varray) = Inr (samples h' v', out')"
    "out = Correcting # out' @ [CorrectionDone]"
    "v_name varray = Some name"
proof -
  let ?brt = "brt_list sp spot_thres"
  obtain surs where surs: "sur_list (v_coords varray) window ?brt ?brt = Inr surs"
    using correct_brightspot_sur_error [OF pos, of varray window spot_thres _ h inplace] run
    by (cases "sur_list (v_coords varray) window ?brt ?brt") auto
  obtain buf' out' where
    loop: "correct_loop (v_dtype varray) (v_coords varray) (length ?brt) 0 ?brt surs (samples h varray)
             = Inr (buf', out')"
    using correct_brightspot_loop_error [OF pos surs, of h _ inplace] run
    by (cases "correct_loop (v_dtype varray) (v_coords varray) (length ?brt) 0 ?brt surs (samples h varray)")
       auto
  obtain name where name: "v_name varray = Some name"
    using correct_brightspot_unnamed_error [OF pos surs loop, of inplace] run
    by (cases "v_name varray") auto
  from correct_brightspot_result [OF pos surs loop name, of inplace] run
  have "samples h' v' = buf'" and "out = Correcting # out' @ [CorrectionDone]" by auto
  with surs loop name that show thesis by blast
qed

lemma correct_brightspot_loop_defined:
  assumes wf: "\<forall>p\<in>set (brt_list sp spot_thres). loc_ok (v_coords varray) p"
  obtains surs buf' out' where
    "sur_list (v_coords varray) window (brt_list sp spot_thres) (brt_list sp spot_thres) = Inr surs"
    "correct_loop (v_dtype varray) (v_coords varray) (length (brt_list sp spot_thres)) 0
        (brt_list sp spot_thres) surs (samples h varray) = Inr (buf', out')"
proof -
  define brt where "brt = brt_list sp spot_thres"
  from wf obtain surs where surs: "sur_list (v_coords varray) window brt brt = Inr surs"
    unfolding brt_def using sur_list_defined by blast
  note nth = sur_list_nth [OF surs]
  have "\<forall>k<length brt. surs ! (0 + k) \<noteq> [] \<longrightarrow>
          list_all (loc_ok (v_coords varray)) (surs ! (0 + k)) \<and> loc_ok (v_coords varray) (brt ! k)"
  proof (intro allI impI conjI)
    fix k assume k: "k < length brt"
    with nth have "neighbours (v_coords varray) window brt (brt ! k) = Some (surs ! k)" by simp
    from neighbours_set [OF this]
    have "\<forall>q\<in>set (surs ! k). in_box (v_coords varray) window (brt ! k) q" by simp
    then show "list_all (loc_ok (v_coords varray)) (surs ! (0 + k))"
      by (auto simp: list_all_iff dest: in_box_loc_ok)
    from k wf show "loc_ok (v_coords varray) (brt ! k)" by (simp add: brt_def)
  qed
  from correct_loop_returns [OF this] obtain buf' out' where
    "correct_loop (v_dtype varray) (v_coords varray) (length brt) 0 brt surs (samples h varray)
       = Inr (buf', out')"
    by blast
  with surs that show thesis unfolding brt_def by blast
qed

lemma correct_brightspot_returns:
  assumes pos: "0 < s_sum sp"
      and wf: "\<forall>p\<in>set (brt_list sp spot_thres). loc_ok (v_coords varray) p"
      and name: "v_name varray = Some name"
  shows "\<exists>v' h' out. correct_brightspot h varray sp window spot_thres inplace = Inr (v', h', out)"
proof -
  from correct_brightspot_loop_defined [OF wf] obtain surs buf' out' where
    "sur_list (v_coords varray) window (brt_list sp spot_thres) (brt_list sp spot_thres) = Inr surs"
    "correct_loop (v_dtype varray) (v_coords varray) (length (brt_list sp spot_thres)) 0
        (brt_list sp spot_thres) surs (samples h varray) = Inr (buf', out')"
    by blast
  from correct_brightspot_result [OF pos this name] show ?thesis by blast
qed

lemma correct_brightspot_unnamed:
  assumes pos: "0 < s_sum sp"
      and wf: "\<forall>p\<in>set (brt_list sp spot_thres). loc_ok (v_coords varray) p"
      and name: "v_name varray = None"
  shows "correct_brightspot h varray sp window spot_thres inplace = Inl TypeError"
proof -
  from correct_brightspot_loop_defined [OF wf] obtain surs buf' out' where
    "sur_list (v_coords varray) window (brt_list sp spot_thres) (brt_list sp spot_thres) = Inr surs"
    "correct_loop (v_dtype varray) (v_coords varray) (length (brt_list sp spot_thres)) 0
        (brt_list sp spot_thres) surs (samples h varray) = Inr (buf', out')"
    by blast
  from correct_brightspot_unnamed_error [OF pos this name] show ?thesis .
qed

subsection \<open>The claims about \<open>correct_brightspot\<close>\<close>

lemma to_dtype_Float: "to_dtype Float x = x"
  by (simp add: to_dtype_def)

lemma to_dtype_UInt8: "0 \<le> x \<Longrightarrow> x < 256 \<Longrightarrow> to_dtype UInt8 x = of_int \<lfloor>x\<rfloor>"
proof -
  assume "0 \<le> x" and "x < 256"
  then have "0 \<le> \<lfloor>x\<rfloor>" and "\<lfloor>x\<rfloor> < 256" by (simp_all add: floor_less_iff)
  then have "\<lfloor>x\<rfloor> mod 256 = \<lfloor>x\<rfloor>" by simp
  with \<open>0 \<le> x\<close> show ?thesis by (simp add: to_dtype_def)
qed

lemma correct_brightspot_mean:
  assumes run: "correct_brightspot h varray sp window spot_thres inplace = Inr (v', h', out)"
      and pos: "0 < s_sum sp"
      and dims: "distinct (s_dims sp)"
      and p: "p \<in> set (brt_list sp spot_thres)"
      and nb: "neighbours (v_coords varray) window (brt_list sp spot_thres) p = Some s"
      and nonempty: "s \<noteq> []"
      and l: "matches p l"
  shows "samples h' v' l = to_dtype (v_dtype varray) (neighbour_mean h varray l s)"
    and "set s \<inter> set (brt_list sp spot_thres) = {}"
proof -
  let ?brt = "brt_list sp spot_thres"
  let ?f = "\<lambda>p. the (neighbours (v_coords varray) window ?brt p)"
  from correct_brightspot_Inr [OF run pos] obtain surs out' where
    surs: "sur_list (v_coords varray) window ?brt ?brt = Inr surs"
    and loop: "correct_loop (v_dtype varray) (v_coords varray) (length ?brt) 0 ?brt surs (samples h varray)
                 = Inr (samples h' v', out')"
    by blast
  have agree: "\<forall>k<length ?brt. surs ! (0 + k) = ?f (?brt ! k)"
    using sur_list_nth [OF surs] by simp
  have fp: "?f p = s" by (simp add: nb)
  note box = neighbours_set [OF nb]
  show unflagged: "set s \<inter> set ?brt = {}" using box by auto
  have h1: "\<forall>r\<in>set ?brt. ?f r \<noteq> [] \<longrightarrow> (\<forall>q\<in>set s. \<not> matches r (at_point l q))"
  proof (intro ballI impI notI)
    fix r q assume r: "r \<in> set ?brt" and q: "q \<in> set s" and m: "matches r (at_point l q)"
    from q box have "in_box (v_coords varray) window p q" by simp
    then have "map fst q = map fst p" by (rule in_box_fst)
    with brt_list_fst [OF p] brt_list_fst [OF r] have "map fst q = map fst r" by simp
    moreover from dims brt_list_fst [OF r] have "distinct (map fst r)" by simp
    ultimately have "r = q" using m by (simp add: matches_at_point_iff)
    with r q unflagged show False by auto
  qed
  have h2: "\<forall>r\<in>set ?brt. ?f r \<noteq> [] \<and> matches r l \<longrightarrow> ?f r = s"
  proof (intro ballI impI)
    fix r assume r: "r \<in> set ?brt" and "?f r \<noteq> [] \<and> matches r l"
    then have "matches r l" by simp
    from matches_unique [OF this l] brt_list_fst [OF r] brt_list_fst [OF p]
    have "r = p" by simp
    then show "?f r = s" by (simp add: fp)
  qed
  have h3: "(\<exists>r\<in>set ?brt. ?f r \<noteq> [] \<and> matches r l)
              \<or> samples h varray l
                  = to_dtype (v_dtype varray) (mean (map (\<lambda>q. samples h varray (at_point l q)) s))"
    using p fp nonempty l by blast
  from correct_loop_mean [OF loop agree h1 h2 h3]
  show "samples h' v' l = to_dtype (v_dtype varray) (neighbour_mean h varray l s)"
    by (simp add: neighbour_mean_def)
qed

lemma correct_brightspot_isolated:
  assumes run: "correct_brightspot h varray sp window spot_thres inplace = Inr (v', h', out)"
      and i: "i < length (brt_list sp spot_thres)"
      and nb: "neighbours (v_coords varray) window (brt_list sp spot_thres)
                 (brt_list sp spot_thres ! i) = Some []"
  shows "matches (brt_list sp spot_thres ! i) l \<Longrightarrow> samples h' v' l = samples h varray l"
    and "0 < s_sum sp \<Longrightarrow> UnableToCorrect i (brt_list sp spot_thres ! i) \<in> set out"
proof -
  let ?brt = "brt_list sp spot_thres"
  let ?p = "?brt ! i"
  let ?f = "\<lambda>p. the (neighbours (v_coords varray) window ?brt p)"
  from i have p: "?p \<in> set ?brt" by simp
  have fp: "?f ?p = []" by (simp add: nb)
  show "samples h' v' l = samples h varray l" if l: "matches ?p l"
  proof (cases "0 < s_sum sp")
    case False
    with run show ?thesis by (simp add: correct_brightspot_short)
  next
    case True
    from correct_brightspot_Inr [OF run True] obtain surs out' where
      surs: "sur_list (v_coords varray) window ?brt ?brt = Inr surs"
      and loop: "correct_loop (v_dtype varray) (v_coords varray) (length ?brt) 0 ?brt surs (samples h varray)
                   = Inr (samples h' v', out')"
      by blast
    have agree: "\<forall>k<length ?brt. surs ! (0 + k) = ?f (?brt ! k)"
      using sur_list_nth [OF surs] by simp
    have "\<forall>r\<in>set ?brt. ?f r \<noteq> [] \<longrightarrow> \<not> matches r l"
    proof (intro ballI impI notI)
      fix r assume r: "r \<in> set ?brt" and ne: "?f r \<noteq> []" and m: "matches r l"
      from matches_unique [OF m l] brt_list_fst [OF r] brt_list_fst [OF p]
      have "r = ?p" by simp
      with ne fp show False by simp
    qed
    from correct_loop_frame [OF loop agree this] show ?thesis .
  qed
  show "UnableToCorrect i ?p \<in> set out" if pos: "0 < s_sum sp"
  proof -
    from correct_brightspot_Inr [OF run pos] obtain surs out' where
      surs: "sur_list (v_coords varray) window ?brt ?brt = Inr surs"
      and loop: "correct_loop (v_dtype varray) (v_coords varray) (length ?brt) 0 ?brt surs (samples h varray)
                   = Inr (samples h' v', out')"
      and out: "out = Correcting # out' @ [CorrectionDone]"
      by blast
    from sur_list_nth [OF surs] i nb have empty: "surs ! (0 + i) = []" by simp
    from correct_loop_unable [OF loop i empty] show ?thesis by (simp add: out)
  qed
qed

lemma coord_of_coordinate_tuple:
  assumes "length idx = length (s_dims sp)"
  shows "coord_of sp idx = coordinate_tuple sp idx"
proof (rule nth_equalityI)
  show "length (coord_of sp idx) = length (coordinate_tuple sp idx)"
    using assms by (simp add: coord_of_def coordinate_tuple_def)
next
  fix k assume "k < length (coord_of sp idx)"
  with assms have k: "k < length (s_dims sp)" "k < length idx" by (simp_all add: coord_of_def)
  then show "coord_of sp idx ! k = coordinate_tuple sp idx ! k"
    by (simp add: coord_of_def coordinate_tuple_def)
qed

lemma ex_brt: "brt_list ex_spots 10 = [[(''height'', 10), (''width'', 20)]]"
  by code_simp

lemma ex_neighbours:
  "neighbours ex_coords 2 [[(''height'', 10), (''width'', 20)]] [(''height'', 10), (''width'', 20)]
     = Some [[(''height'', 10), (''width'', 21)], [(''height'', 11), (''width'', 20)],
             [(''height'', 11), (''width'', 21)]]"
  by code_simp

lemma ex_wf: "loc_ok ex_coords [(''height'', 10), (''width'', 20)]"
  by code_simp

lemma ex_origin_matches: "matches [(''height'', 10), (''width'', 20)] ex_origin"
  by (simp add: matches_def ex_origin_def)

text \<open>
  Claim C1, as amended. Take a call of \<open>correct_brightspot\<close> that passes the short-circuit
  (the sum of the mask is positive) and returns, with distinct dimension names. For
  every flagged point \<open>p\<close> whose neighbour set \<open>s\<close> is not empty, and at every location
  \<open>l\<close> of the video that lies at \<open>p\<close> (one for every position along the dimensions that
  the mask does not span), the sample of the returned video is the arithmetic mean,
  over the neighbours, of the samples that the input video held before the call at the
  neighbours' places, converted to the element type of the video: the mean itself for a
  floating-point video, the mean without its fraction for an 8-bit video. No neighbour
  is a flagged point, so no read sees a corrected sample, whether the call works in
  place or on a copy. In a floating-point video, three neighbours holding 1, 2 and 3
  give the corrected sample 2.
\<close>

theorem corrected_value_is_converted_mean:
  assumes run: "correct_brightspot h varray sp window spot_thres inplace = Inr (v', h', out)"
      and pos: "0 < s_sum sp"
      and dims: "distinct (s_dims sp)"
      and p: "p \<in> set (brt_list sp spot_thres)"
      and nb: "neighbours (v_coords varray) window (brt_list sp spot_thres) p = Some s"
      and nonempty: "s \<noteq> []"
      and l: "matches p l"
  shows "samples h' v' l = to_dtype (v_dtype varray) (neighbour_mean h varray l s)
       \<and> (v_dtype varray = Float \<longrightarrow> samples h' v' l = neighbour_mean h varray l s)
       \<and> (v_dtype varray = UInt8 \<and> 0 \<le> neighbour_mean h varray l s
             \<and> neighbour_mean h varray l s < 256
           \<longrightarrow> samples h' v' l = of_int \<lfloor>neighbour_mean h varray l s\<rfloor>)
       \<and> set s \<inter> set (brt_list sp spot_thres) = {}"
  using correct_brightspot_mean [OF assms]
  by (auto simp: to_dtype_Float to_dtype_UInt8)

theorem corrected_value_is_converted_mean_witness:
  "\<exists>v' h' out. correct_brightspot ex_heap ex_video ex_spots 2 10 True = Inr (v', h', out)
      \<and> neighbours (v_coords ex_video) 2 (brt_list ex_spots 10) [(''height'', 10), (''width'', 20)]
          = Some [[(''height'', 10), (''width'', 21)], [(''height'', 11), (''width'', 20)],
                  [(''height'', 11), (''width'', 21)]]
      \<and> samples h' v' ex_origin = 2"
proof -
  let ?p = "[(''height'', 10), (''width'', 20)] :: point"
  let ?s = "[[(''height'', 10), (''width'', 21)], [(''height'', 11), (''width'', 20)],
             [(''height'', 11), (''width'', 21)]] :: point list"
  have cs: "v_coords ex_video = ex_coords" by (simp add: ex_video_def)
  have nb: "neighbours (v_coords ex_video) 2 (brt_list ex_spots 10) ?p = Some ?s"
    unfolding cs ex_brt by (rule ex_neighbours)
  have pos: "0 < s_sum ex_spots" by code_simp
  have wf: "\<forall>p\<in>set (brt_list ex_spots 10). loc_ok (v_coords ex_video) p"
    unfolding cs ex_brt by (simp add: ex_wf)
  have name: "v_name ex_video = Some ''Y''" by (simp add: ex_video_def)
  from correct_brightspot_returns [OF pos wf name] obtain v' h' out where
    run: "correct_brightspot ex_heap ex_video ex_spots 2 10 True = Inr (v', h', out)" by blast
  have dims: "distinct (s_dims ex_spots)" by (simp add: ex_spots_def)
  have p: "?p \<in> set (brt_list ex_spots 10)" by (simp add: ex_brt)
  have fl: "v_dtype ex_video = Float" by (simp add: ex_video_def)
  from corrected_value_is_converted_mean [OF run pos dims p nb _ ex_origin_matches] fl
  have "samples h' v' ex_origin = neighbour_mean ex_heap ex_video ex_origin ?s" by simp
  also have "\<dots> = 2"
    by (simp add: neighbour_mean_def mean_def samples_def ex_heap_def ex_buffer_def at_point_def
          ex_origin_def)
  finally show ?thesis using run nb by blast
qed

text \<open>
  The claim as it was stated fails in two ways. In the 8-bit video whose three
  neighbours hold 1, 2 and 4, the corrected sample is 2 and their mean is 7/3. And with
  the mask that holds 11 at the flagged pixel and -11 beside it, the sum of the mask is
  0: the call returns its argument, and the flagged pixel keeps its 100 where the mean
  of its neighbours is 2.
\<close>

theorem corrected_value_is_not_always_the_mean:
  "brt_list ex_spots 10 = [[(''height'', 10), (''width'', 20)]]
   \<and> neighbours (v_coords ex_video8) 2 (brt_list ex_spots 10) [(''height'', 10), (''width'', 20)]
        = Some [[(''height'', 10), (''width'', 21)], [(''height'', 11), (''width'', 20)],
                [(''height'', 11), (''width'', 21)]]
   \<and> neighbour_mean ex_heap8 ex_video8 ex_origin
        [[(''height'', 10), (''width'', 21)], [(''height'', 11), (''width'', 20)],
         [(''height'', 11), (''width'', 21)]] = 7 / 3
   \<and> returned_sample (correct_brightspot ex_heap8 ex_video8 ex_spots 2 10 True) ex_origin = Some 2
   \<and> returned_sample (correct_brightspot ex_heap8 ex_video8 ex_spots 2 10 True) ex_origin
        \<noteq> Some (neighbour_mean ex_heap8 ex_video8 ex_origin
                   [[(''height'', 10), (''width'', 21)], [(''height'', 11), (''width'', 20)],
                    [(''height'', 11), (''width'', 21)]])
   \<and> brt_list ex_spots_neg 10 = [[(''height'', 10), (''width'', 20)]]
   \<and> neighbours (v_coords ex_video) 2 (brt_list ex_spots_neg 10) [(''height'', 10), (''width'', 20)]
        = Some [[(''height'', 10), (''width'', 21)], [(''height'', 11), (''width'', 20)],
                [(''height'', 11), (''width'', 21)]]
   \<and> neighbour_mean ex_heap ex_video ex_origin
        [[(''height'', 10), (''width'', 21)], [(''height'', 11), (''width'', 20)],
         [(''height'', 11), (''width'', 21)]] = 2
   \<and> returned_sample (correct_brightspot ex_heap ex_video ex_spots_neg 2 10 True) ex_origin = Some 100
   \<and> returned_sample (correct_brightspot ex_heap ex_video ex_spots_neg 2 10 True) ex_origin
        \<noteq> Some (neighbour_mean ex_heap ex_video ex_origin
                   [[(''height'', 10), (''width'', 21)], [(''height'', 11), (''width'', 20)],
                    [(''height'', 11), (''width'', 21)]])"
proof -
  let ?p = "[(''height'', 10), (''width'', 20)] :: point"
  let ?s = "[[(''height'', 10), (''width'', 21)], [(''height'', 11), (''width'', 20)],
             [(''height'', 11), (''width'', 21)]] :: point list"
  have cs8: "v_coords ex_video8 = ex_coords" and cs: "v_coords ex_video = ex_coords"
    by (simp_all add: ex_video8_def ex_video_def)
  have nb8: "neighbours (v_coords ex_video8) 2 (brt_list ex_spots 10) ?p = Some ?s"
    unfolding cs8 ex_brt by (rule ex_neighbours)
  have m8: "neighbour_mean ex_heap8 ex_video8 ex_origin ?s = 7 / 3"
    by (simp add: neighbour_mean_def mean_def samples_def ex_heap8_def ex_buffer8_def at_point_def
          ex_origin_def)
  have pos: "0 < s_sum ex_spots" by code_simp
  have wf: "\<forall>p\<in>set (brt_list ex_spots 10). loc_ok (v_coords ex_video8) p"
    unfolding cs8 ex_brt by (simp add: ex_wf)
  have name: "v_name ex_video8 = Some ''Y''" by (simp add: ex_video8_def)
  from correct_brightspot_returns [OF pos wf name] obtain v' h' out where
    run: "correct_brightspot ex_heap8 ex_video8 ex_spots 2 10 True = Inr (v', h', out)" by blast
  have dims: "distinct (s_dims ex_spots)" by (simp add: ex_spots_def)
  have p: "?p \<in> set (brt_list ex_spots 10)" by (simp add: ex_brt)
  have "samples h' v' ex_origin = to_dtype (v_dtype ex_video8) (neighbour_mean ex_heap8 ex_video8 ex_origin ?s)"
    by (rule correct_brightspot_mean(1) [OF run pos dims p nb8 _ ex_origin_matches]) simp
  also have "\<dots> = 2" unfolding m8 by (simp add: ex_video8_def to_dtype_def)
  finally have r8: "returned_sample (correct_brightspot ex_heap8 ex_video8 ex_spots 2 10 True) ex_origin
                      = Some 2"
    by (simp add: run returned_sample_def)
  have brtn: "brt_list ex_spots_neg 10 = [?p]" by code_simp
  have nbn: "neighbours (v_coords ex_video) 2 (brt_list ex_spots_neg 10) ?p = Some ?s"
    unfolding cs brtn by (rule ex_neighbours)
  have mn: "neighbour_mean ex_heap ex_video ex_origin ?s = 2"
    by (simp add: neighbour_mean_def mean_def samples_def ex_heap_def ex_buffer_def at_point_def
          ex_origin_def)
  have "\<not> 0 < s_sum ex_spots_neg" by code_simp
  then have "correct_brightspot ex_heap ex_video ex_spots_neg 2 10 True
               = Inr (ex_video, ex_heap, [Correcting, NoSpots])"
    by (rule correct_brightspot_short)
  then have rn: "returned_sample (correct_brightspot ex_heap ex_video ex_spots_neg 2 10 True) ex_origin
                   = Some 100"
    by (simp add: returned_sample_def samples_def ex_heap_def ex_buffer_def ex_origin_def)
  have ne8: "returned_sample (correct_brightspot ex_heap8 ex_video8 ex_spots 2 10 True) ex_origin
               \<noteq> Some (neighbour_mean ex_heap8 ex_video8 ex_origin ?s)"
    unfolding r8 m8 by simp
  have nen: "returned_sample (correct_brightspot ex_heap ex_video ex_spots_neg 2 10 True) ex_origin
               \<noteq> Some (neighbour_mean ex_heap ex_video ex_origin ?s)"
    unfolding rn mn by simp
  from ex_brt nb8 m8 r8 ne8 brtn nbn mn rn nen show ?thesis by blast
qed

text \<open>
  Claim C2. In the list of neighbour sets that the first loop builds, the set of the
  flagged point number \<open>i\<close> is the box of that point (on every dimension of the mask the
  coordinates of the video within \<open>window\<close> of the point's own, both ends included)
  without the flagged points. So it contains neither the point itself nor another
  flagged point, and every neighbour is a location of the video. For the corner (0, 0)
  of 3 x 3 pixels and \<open>window = 2\<close> the neighbours are the eight other pixels.
\<close>

theorem neighbour_set_is_box_minus_flagged:
  assumes "sur_list cs window brt brt = Inr surs" and "i < length brt"
  shows "set (surs ! i) = {q. in_box cs window (brt ! i) q} - set brt
       \<and> brt ! i \<notin> set (surs ! i)
       \<and> set (surs ! i) \<inter> set brt = {}
       \<and> (\<forall>q\<in>set (surs ! i). loc_ok cs q)"
proof -
  from sur_list_nth [OF assms(1)] assms(2)
  have "neighbours cs window brt (brt ! i) = Some (surs ! i)" by simp
  from neighbours_set [OF this]
  have eq: "set (surs ! i) = {q. in_box cs window (brt ! i) q} - set brt" .
  moreover from assms(2) have "brt ! i \<in> set brt" by simp
  ultimately show ?thesis by (auto dest: in_box_loc_ok)
qed
theorem neighbour_set_is_box_minus_flagged_witness:
  "sur_list ex_corner 2 [[(''height'', 0), (''width'', 0)]] [[(''height'', 0), (''width'', 0)]] =
     Inr [[[(''height'', 0), (''width'', 1)], [(''height'', 0), (''width'', 2)],
           [(''height'', 1), (''width'', 0)], [(''height'', 1), (''width'', 1)], [(''height'', 1), (''width'', 2)],
           [(''height'', 2), (''width'', 0)], [(''height'', 2), (''width'', 1)], [(''height'', 2), (''width'', 2)]]]
   \<and> {q. in_box ex_corner 2 [(''height'', 0), (''width'', 0)] q} - {[(''height'', 0), (''width'', 0)]} =
     {[(''height'', 0), (''width'', 1)], [(''height'', 0), (''width'', 2)],
           [(''height'', 1), (''width'', 0)], [(''height'', 1), (''width'', 1)], [(''height'', 1), (''width'', 2)],
           [(''height'', 2), (''width'', 0)], [(''height'', 2), (''width'', 1)], [(''height'', 2), (''width'', 2)]}"
proof -
  let ?brt = "[[(''height'', 0), (''width'', 0)]] :: point list"
  let ?s = "[[(''height'', 0), (''width'', 1)], [(''height'', 0), (''width'', 2)],
           [(''height'', 1), (''width'', 0)], [(''height'', 1), (''width'', 1)], [(''height'', 1), (''width'', 2)],
           [(''height'', 2), (''width'', 0)], [(''height'', 2), (''width'', 1)], [(''height'', 2), (''width'', 2)]] :: point list"
  have sur: "sur_list ex_corner 2 ?brt ?brt = Inr [?s]" by code_simp
  have "0 < length ?brt" by simp
  from neighbour_set_is_box_minus_flagged [OF sur this] sur show ?thesis by simp
qed

text \<open>
  Claim C3. When no entry of the mask is positive, \<open>correct_brightspot\<close> returns its
  argument: the same array at the same buffer, in a heap that is unchanged (nothing was
  allocated, so no copy was made), whatever \<open>inplace\<close> is, and it prints the opening
  message and the message that there is nothing to correct.
\<close>

theorem no_positive_entry_returns_input:
  assumes "\<forall>idx\<in>set (s_indices sp). s_values sp idx \<le> 0"
  shows "correct_brightspot h varray sp window spot_thres inplace = Inr (varray, h, [Correcting, NoSpots])"
proof -
  from assms have "s_sum sp \<le> 0"
    unfolding s_sum_def by (intro sum_list_nonpos) auto
  then show ?thesis by (simp add: correct_brightspot_short)
qed
theorem no_positive_entry_returns_input_witness:
  "correct_brightspot ex_heap ex_video
      (ex_spots\<lparr>s_values := (\<lambda>idx. 0)\<rparr>) 2 10 False
     = Inr (ex_video, ex_heap, [Correcting, NoSpots])"
  using no_positive_entry_returns_input [of "ex_spots\<lparr>s_values := (\<lambda>idx. 0)\<rparr>" ex_heap ex_video 2 10 False]
  by simp

text \<open>
  Claim C4, as amended. Let the neighbour set of the flagged point number \<open>i\<close> be empty.
  Whenever the call returns, the returned video holds at that point the samples of the
  input video. When the call has passed the short-circuit (the sum of the mask is
  positive), the message that the point number \<open>i\<close> could not be corrected, with its
  coordinates, is among the output. And the call does return, without an exception,
  when in addition the video has a name and the flagged points are locations of the
  video.
\<close>

theorem isolated_point_left_unchanged:
  assumes i: "i < length (brt_list sp spot_thres)"
      and nb: "neighbours (v_coords varray) window (brt_list sp spot_thres)
                 (brt_list sp spot_thres ! i) = Some []"
  shows "(\<forall>v' h' out l.
            correct_brightspot h varray sp window spot_thres inplace = Inr (v', h', out)
              \<and> matches (brt_list sp spot_thres ! i) l
            \<longrightarrow> samples h' v' l = samples h varray l)
       \<and> (\<forall>v' h' out.
            correct_brightspot h varray sp window spot_thres inplace = Inr (v', h', out)
              \<and> 0 < s_sum sp
            \<longrightarrow> UnableToCorrect i (brt_list sp spot_thres ! i) \<in> set out)
       \<and> (0 < s_sum sp \<and> v_name varray \<noteq> None
              \<and> (\<forall>p\<in>set (brt_list sp spot_thres). loc_ok (v_coords varray) p)
            \<longrightarrow> (\<exists>v' h' out.
                   correct_brightspot h varray sp window spot_thres inplace = Inr (v', h', out)))"
proof (intro conjI allI impI)
  fix v' h' out l
  assume "correct_brightspot h varray sp window spot_thres inplace = Inr (v', h', out)
            \<and> matches (brt_list sp spot_thres ! i) l"
  then show "samples h' v' l = samples h varray l"
    using correct_brightspot_isolated(1) [OF _ i nb] by blast
next
  fix v' h' out
  assume "correct_brightspot h varray sp window spot_thres inplace = Inr (v', h', out)
            \<and> 0 < s_sum sp"
  then show "UnableToCorrect i (brt_list sp spot_thres ! i) \<in> set out"
    using correct_brightspot_isolated(2) [OF _ i nb] by blast
next
  assume a: "0 < s_sum sp \<and> v_name varray \<noteq> None
              \<and> (\<forall>p\<in>set (brt_list sp spot_thres). loc_ok (v_coords varray) p)"
  then obtain name where "v_name varray = Some name" by auto
  with a show "\<exists>v' h' out.
      correct_brightspot h varray sp window spot_thres inplace = Inr (v', h', out)"
    using correct_brightspot_returns by blast
qed

theorem isolated_point_left_unchanged_witness:
  "\<exists>v' h' out.
      correct_brightspot ex_heap ex_video ex_spots_full 2 10 True = Inr (v', h', out)
    \<and> (\<forall>l. matches [(''height'', 10), (''width'', 20)] l
           \<longrightarrow> samples h' v' l = samples ex_heap ex_video l)
    \<and> UnableToCorrect 0 [(''height'', 10), (''width'', 20)] \<in> set out"
proof -
  have brt: "brt_list ex_spots_full 10 =
      [[(''height'', 10), (''width'', 20)], [(''height'', 10), (''width'', 21)],
       [(''height'', 11), (''width'', 20)], [(''height'', 11), (''width'', 21)]]" by code_simp
  have nb: "neighbours (v_coords ex_video) 2 (brt_list ex_spots_full 10) (brt_list ex_spots_full 10 ! 0) = Some []"
    by code_simp
  have wf: "\<forall>p\<in>set (brt_list ex_spots_full 10). loc_ok (v_coords ex_video) p"
    unfolding brt by code_simp
  have pos: "0 < s_sum ex_spots_full" by code_simp
  have name: "v_name ex_video \<noteq> None" by (simp add: ex_video_def)
  have i: "0 < length (brt_list ex_spots_full 10)" by (simp add: brt)
  note t = isolated_point_left_unchanged [OF i nb, of ex_heap True]
  from t pos name wf obtain v' h' out where
    run: "correct_brightspot ex_heap ex_video ex_spots_full 2 10 True = Inr (v', h', out)"
    by blast
  from t run pos have "UnableToCorrect 0 (brt_list ex_spots_full 10 ! 0) \<in> set out" by blast
  moreover from t run
  have "\<forall>l. matches (brt_list ex_spots_full 10 ! 0) l \<longrightarrow> samples h' v' l = samples ex_heap ex_video l"
    by blast
  ultimately show ?thesis using run by (auto simp: brt)
qed

text \<open>
  The claim as it was stated fails in two ways. With the mask that is 0 everywhere and
  \<open>spot_thres = -1\<close> every pixel is flagged and has no neighbour left, but the sum of the
  mask is 0: the call returns on the short-circuit and prints no message about the
  point. And for the video without a name, with the mask that flags every pixel, the
  call ends in \<open>TypeError\<close>.
\<close>

theorem isolated_point_not_always_reported:
  "brt_list ex_spots_zero (- 1) ! 0 = [(''height'', 10), (''width'', 20)]
   \<and> neighbours (v_coords ex_video) 2 (brt_list ex_spots_zero (- 1)) [(''height'', 10), (''width'', 20)]
        = Some []
   \<and> correct_brightspot ex_heap ex_video ex_spots_zero 2 (- 1) True
        = Inr (ex_video, ex_heap, [Correcting, NoSpots])
   \<and> UnableToCorrect 0 [(''height'', 10), (''width'', 20)] \<notin> set [Correcting, NoSpots]
   \<and> brt_list ex_spots_full 10 ! 0 = [(''height'', 10), (''width'', 20)]
   \<and> neighbours (v_coords ex_video_unnamed) 2 (brt_list ex_spots_full 10)
        [(''height'', 10), (''width'', 20)] = Some []
   \<and> correct_brightspot ex_heap ex_video_unnamed ex_spots_full 2 10 True = Inl TypeError"
proof -
  have b0: "brt_list ex_spots_zero (- 1) ! 0 = [(''height'', 10), (''width'', 20)]" by code_simp
  have n0: "neighbours (v_coords ex_video) 2 (brt_list ex_spots_zero (- 1))
              [(''height'', 10), (''width'', 20)] = Some []"
    by code_simp
  have "\<not> 0 < s_sum ex_spots_zero" by code_simp
  then have r0: "correct_brightspot ex_heap ex_video ex_spots_zero 2 (- 1) True
                   = Inr (ex_video, ex_heap, [Correcting, NoSpots])"
    by (rule correct_brightspot_short)
  have d0: "UnableToCorrect 0 [(''height'', 10), (''width'', 20)] \<notin> set [Correcting, NoSpots]"
    by simp
  have brt: "brt_list ex_spots_full 10 =
      [[(''height'', 10), (''width'', 20)], [(''height'', 10), (''width'', 21)],
       [(''height'', 11), (''width'', 20)], [(''height'', 11), (''width'', 21)]]" by code_simp
  have b1: "brt_list ex_spots_full 10 ! 0 = [(''height'', 10), (''width'', 20)]"
    by (simp add: brt)
  have n1: "neighbours (v_coords ex_video_unnamed) 2 (brt_list ex_spots_full 10)
              [(''height'', 10), (''width'', 20)] = Some []"
    by code_simp
  have pos: "0 < s_sum ex_spots_full" by code_simp
  have wf: "\<forall>p\<in>set (brt_list ex_spots_full 10). loc_ok (v_coords ex_video_unnamed) p"
    unfolding brt by code_simp
  have "v_name ex_video_unnamed = None" by (simp add: ex_video_unnamed_def)
  with pos wf have r1: "correct_brightspot ex_heap ex_video_unnamed ex_spots_full 2 10 True = Inl TypeError"
    by (rule correct_brightspot_unnamed)
  from b0 n0 r0 d0 b1 n1 r1 show ?thesis by simp
qed

text \<open>
  Claim C8. The flagged points are the coordinate tuples of the index tuples of the mask
  whose value is greater than the threshold in force: a flagged point carries, on every
  dimension of the mask, the label that the coordinate of that dimension holds at the
  position of the entry. The threshold in force is 0 for a mask over three dimensions,
  whatever the caller passed, and the caller's \<open>spot_thres\<close> for a mask over at most two.
\<close>

theorem flagged_points_exceed_threshold:
  "set (brt_list sp spot_thres) =
     {coordinate_tuple sp idx | idx.
        length idx = length (s_dims sp) \<and>
        (\<forall>k<length idx. idx ! k < length (s_coords sp (s_dims sp ! k))) \<and>
        (if length (s_dims sp) \<le> 2 then spot_thres else 0)
          < s_values sp idx}
   \<and> (length (s_dims sp) = 3 \<longrightarrow> effective_thres sp spot_thres = 0)"
proof -
  have "set (brt_list sp spot_thres) =
     {coord_of sp idx | idx.
        length idx = length (s_dims sp) \<and>
        (\<forall>k<length idx. idx ! k < length (s_coords sp (s_dims sp ! k))) \<and>
        effective_thres sp spot_thres < s_values sp idx}"
    by (auto simp: brt_list_def s_indices_iff)
  also have "\<dots> =
     {coordinate_tuple sp idx | idx.
        length idx = length (s_dims sp) \<and>
        (\<forall>k<length idx. idx ! k < length (s_coords sp (s_dims sp ! k))) \<and>
        (if length (s_dims sp) \<le> 2 then spot_thres else 0)
          < s_values sp idx}" (is "?A = ?B")
  proof -
    have thr: "(if length (s_dims sp) \<le> 2 then spot_thres else 0)
                 = effective_thres sp spot_thres"
      by (simp add: effective_thres_def)
    show ?thesis unfolding thr
    proof (intro set_eqI iffI)
      fix p assume "p \<in> ?A"
      then obtain idx where "p = coord_of sp idx" and len: "length idx = length (s_dims sp)"
        and rest: "(\<forall>k<length idx. idx ! k < length (s_coords sp (s_dims sp ! k)))"
          "effective_thres sp spot_thres < s_values sp idx"
        by blast
      then have "p = coordinate_tuple sp idx" by (simp add: coord_of_coordinate_tuple)
      with len rest show "p \<in> {coordinate_tuple sp idx | idx.
        length idx = length (s_dims sp) \<and>
        (\<forall>k<length idx. idx ! k < length (s_coords sp (s_dims sp ! k))) \<and>
        effective_thres sp spot_thres < s_values sp idx}" by blast
    next
      fix p assume "p \<in> {coordinate_tuple sp idx | idx.
        length idx = length (s_dims sp) \<and>
        (\<forall>k<length idx. idx ! k < length (s_coords sp (s_dims sp ! k))) \<and>
        effective_thres sp spot_thres < s_values sp idx}"
      then obtain idx where "p = coordinate_tuple sp idx" and len: "length idx = length (s_dims sp)"
        and rest: "(\<forall>k<length idx. idx ! k < length (s_coords sp (s_dims sp ! k)))"
          "effective_thres sp spot_thres < s_values sp idx"
        by blast
      then have "p = coord_of sp idx" by (simp add: coord_of_coordinate_tuple)
      with len rest show "p \<in> ?A" by blast
    qed
  qed
  finally show ?thesis by (simp add: effective_thres_def)
qed

theorem flagged_points_exceed_threshold_witness:
  "set (brt_list ex_spots_perframe 10) = {[(''frame'', 6), (''height'', 10), (''width'', 21)]}
   \<and> s_values ex_spots_perframe [1, 0, 1] = 1
   \<and> set (brt_list ex_spots 10) = {[(''height'', 10), (''width'', 20)]}
   \<and> set (brt_list ex_spots 11) = {}"
proof -
  have a: "brt_list ex_spots_perframe 10 = [[(''frame'', 6), (''height'', 10), (''width'', 21)]]"
    by code_simp
  have b: "brt_list ex_spots 11 = []" by code_simp
  have v: "s_values ex_spots_perframe [1, 0, 1] = 1" by (simp add: ex_spots_perframe_def)
  note t = flagged_points_exceed_threshold [of ex_spots_perframe 10]
  have len: "length (s_dims ex_spots_perframe) = 3" by (simp add: ex_spots_perframe_def)
  with t have e: "effective_thres ex_spots_perframe 10 = 0" by blast
  have "length [1, 0, 1 :: nat] = length (s_dims ex_spots_perframe) \<and>
        (\<forall>k<length [1, 0, 1 :: nat].
            [1, 0, 1] ! k < length (s_coords ex_spots_perframe (s_dims ex_spots_perframe ! k))) \<and>
        (if length (s_dims ex_spots_perframe) \<le> 2 then 10 else 0)
          < s_values ex_spots_perframe [1, 0, 1]"
    unfolding v by (simp add: ex_spots_perframe_def nth_Cons')
  then have "coordinate_tuple ex_spots_perframe [1, 0, 1] \<in>
     {coordinate_tuple ex_spots_perframe idx | idx.
        length idx = length (s_dims ex_spots_perframe) \<and>
        (\<forall>k<length idx. idx ! k < length (s_coords ex_spots_perframe (s_dims ex_spots_perframe ! k))) \<and>
        (if length (s_dims ex_spots_perframe) \<le> 2 then 10 else 0)
          < s_values ex_spots_perframe idx}"
    by blast
  with t have "coordinate_tuple ex_spots_perframe [1, 0, 1] \<in> set (brt_list ex_spots_perframe 10)"
    by simp
  then have "coordinate_tuple ex_spots_perframe [1, 0, 1] = [(''frame'', 6), (''height'', 10), (''width'', 21)]"
    by (simp add: a)
  with a b v ex_brt show ?thesis by simp
qed

text \<open>
  Claim C10. Whenever \<open>correct_brightspot\<close> returns, a location of the video whose
  coordinates on the dimensions of the mask are not a flagged point holds in the returned
  video the sample that the input video held there.
\<close>

theorem unflagged_samples_unchanged:
  assumes run: "correct_brightspot h varray sp window spot_thres inplace = Inr (v', h', out)"
      and unflagged: "map (\<lambda>dm. (dm, l dm)) (s_dims sp) \<notin> set (brt_list sp spot_thres)"
  shows "samples h' v' l = samples h varray l"
proof (cases "0 < s_sum sp")
  case False
  with run show ?thesis by (simp add: correct_brightspot_short)
next
  case True
  let ?brt = "brt_list sp spot_thres"
  let ?f = "\<lambda>p. the (neighbours (v_coords varray) window ?brt p)"
  from correct_brightspot_Inr [OF run True] obtain surs out' where
    surs: "sur_list (v_coords varray) window ?brt ?brt = Inr surs"
    and loop: "correct_loop (v_dtype varray) (v_coords varray) (length ?brt) 0 ?brt surs (samples h varray)
                 = Inr (samples h' v', out')"
    by blast
  have agree: "\<forall>k<length ?brt. surs ! (0 + k) = ?f (?brt ! k)"
    using sur_list_nth [OF surs] by simp
  have "\<forall>r\<in>set ?brt. ?f r \<noteq> [] \<longrightarrow> \<not> matches r l"
  proof (intro ballI impI notI)
    fix r assume r: "r \<in> set ?brt" and m: "matches r l"
    from matches_project [OF m] brt_list_fst [OF r]
    have "r = map (\<lambda>dm. (dm, l dm)) (s_dims sp)" by simp
    with r unflagged show False by simp
  qed
  from correct_loop_frame [OF loop agree this] show ?thesis .
qed
theorem unflagged_samples_unchanged_witness:
  "\<exists>v' h' out. correct_brightspot ex_heap ex_video ex_spots 2 10 True = Inr (v', h', out)
      \<and> samples h' v' ex_far = 3"
proof -
  have brt: "brt_list ex_spots 10 = [[(''height'', 10), (''width'', 20)]]" by code_simp
  have pos: "0 < s_sum ex_spots" by code_simp
  have wf: "\<forall>p\<in>set (brt_list ex_spots 10). loc_ok (v_coords ex_video) p"
    unfolding brt by code_simp
  have name: "v_name ex_video = Some ''Y''" by (simp add: ex_video_def)
  from correct_brightspot_returns [OF pos wf name] obtain v' h' out where
    run: "correct_brightspot ex_heap ex_video ex_spots 2 10 True = Inr (v', h', out)" by blast
  have d: "s_dims ex_spots = [''height'', ''width'']" by (simp add: ex_spots_def)
  have "map (\<lambda>dm. (dm, ex_far dm)) (s_dims ex_spots) \<notin> set (brt_list ex_spots 10)"
    unfolding brt d by (simp add: ex_far_def)
  from unflagged_samples_unchanged [OF run this]
  have "samples h' v' ex_far = samples ex_heap ex_video ex_far" .
  also have "\<dots> = 3" by (simp add: samples_def ex_heap_def ex_buffer_def ex_far_def)
  finally show ?thesis using run by blast
qed

section \<open>Properties of the detectors\<close>

subsection \<open>Counting the votes of \<open>detect_brightspot\<close>\<close>

lemma foldl_count:
  fixes spots :: "nat \<Rightarrow> nat \<Rightarrow> int"
  assumes g: "\<And>s x. g s x = (if P x then (\<lambda>r c. if hit x r c then s r c + 1 else s r c) else s)"
  shows "foldl g spots xs r c = spots r c + int (length (filter (\<lambda>x. P x \<and> hit x r c) xs))"
proof (induction xs arbitrary: spots)
  case Nil
  show ?case by simp
next
  case (Cons x xs)
  have "foldl g spots (x # xs) r c = foldl g (g spots x) xs r c" by simp
  also have "\<dots> = g spots x r c + int (length (filter (\<lambda>x. P x \<and> hit x r c) xs))"
    by (rule Cons.IH)
  also have "g spots x r c = spots r c + (if P x \<and> hit x r c then 1 else 0)"
    by (simp add: g)
  finally show ?case by simp
qed

lemma width_loop_count:
  "width_loop m thres window step hs he wins spots r c =
     spots r c + int (length (filter (\<lambda>(iw, ws, we).
        (np_mod iw step = 0 \<and> int (he - hs) = window \<and> int (we - ws) = window) \<and>
        (hs \<le> r \<and> r < he \<and> ws \<le> c \<and> c < we \<and>
         tile_flags m thres hs he ws we ! (r - hs) ! (c - ws))) wins))"
  unfolding width_loop_def
  by (subst foldl_count [where
        P = "\<lambda>(iw, ws, we). np_mod iw step = 0 \<and> int (he - hs) = window \<and> int (we - ws) = window"
        and hit = "\<lambda>(iw, ws, we) r c. hs \<le> r \<and> r < he \<and> ws \<le> c \<and> c < we \<and>
              tile_flags m thres hs he ws we ! (r - hs) ! (c - ws)"])
     (auto simp: add_tile_def split_def intro!: arg_cong [where f = length] filter_cong)

lemma foldl_sum:
  fixes spots :: "nat \<Rightarrow> nat \<Rightarrow> int"
  assumes g: "\<And>s x. g s x r c = s r c + k x"
  shows "foldl g spots xs r c = spots r c + sum_list (map k xs)"
proof (induction xs arbitrary: spots)
  case Nil
  show ?case by simp
next
  case (Cons x xs)
  have "foldl g spots (x # xs) r c = foldl g (g spots x) xs r c" by simp
  also have "\<dots> = g spots x r c + sum_list (map k xs)" by (rule Cons.IH)
  finally show ?case by (simp add: g)
qed

lemma length_filter_product:
  "int (length (filter Q (List.product xs ys))) =
     sum_list (map (\<lambda>x. int (length (filter (\<lambda>y. Q (x, y)) ys))) xs)"
  by (induction xs) (simp_all add: filter_map comp_def)

lemma height_loop_count:
  "height_loop m thres window step w hwins spots r c =
     spots r c + sum_list (map (\<lambda>(ih, hs, he).
        if np_mod ih step = 0
        then int (length (filter (\<lambda>(iw, ws, we).
          (np_mod iw step = 0 \<and> int (he - hs) = window \<and> int (we - ws) = window) \<and>
          (hs \<le> r \<and> r < he \<and> ws \<le> c \<and> c < we \<and>
           tile_flags m thres hs he ws we ! (r - hs) ! (c - ws))) (rolling w window)))
        else 0) hwins)"
  unfolding height_loop_def
  by (rule foldl_sum) (simp add: split_def width_loop_count)

lemma rolling_map: "rolling n window = map (\<lambda>i. (int i, window_start window i, Suc i)) [0..<n]"
  by (simp add: rolling_def window_start_def)

lemma window_start_full:
  assumes "0 < window"
  shows "int (Suc i - window_start window i) = window \<longleftrightarrow> window \<le> int i + 1"
    and "window \<le> int i + 1 \<Longrightarrow> window_start window i = Suc i - nat window"
  using assms by (auto simp: window_start_def)

lemma tile_pred_iff:
  assumes "0 < window" and "step \<noteq> 0"
  shows "(np_mod (int i) step = 0 \<and>
          ((np_mod (int j) step = 0 \<and> int (Suc i - window_start window i) = window
              \<and> int (Suc j - window_start window j) = window) \<and>
           (window_start window i \<le> r \<and> r < Suc i \<and> window_start window j \<le> c \<and> c < Suc j \<and>
            tile_flags m thres (window_start window i) (Suc i) (window_start window j) (Suc j)
              ! (r - window_start window i) ! (c - window_start window j))))
     \<longleftrightarrow>
         ((int i mod step = 0 \<and> int j mod step = 0 \<and> window \<le> int i + 1 \<and> window \<le> int j + 1)
          \<and> covers window (i, j) r c \<and> tile_flagged m thres window (i, j) r c)"
proof (cases "window \<le> int i + 1 \<and> window \<le> int j + 1")
  case False
  then show ?thesis using window_start_full(1) [OF assms(1)] by auto
next
  case True
  then have si: "window_start window i = Suc i - nat window" and sj: "window_start window j = Suc j - nat window"
    using window_start_full(2) [OF assms(1)] by simp_all
  have full: "int (Suc i - window_start window i) = window" "int (Suc j - window_start window j) = window"
    using True window_start_full(1) [OF assms(1)] by simp_all
  have cov: "covers window (i, j) r c \<longleftrightarrow>
      window_start window i \<le> r \<and> r < Suc i \<and> window_start window j \<le> c \<and> c < Suc j"
    using True assms(1) unfolding covers_def si sj by auto
  show ?thesis
    unfolding cov tile_flagged_def Let_def fst_conv snd_conv si [symmetric] sj [symmetric]
    using True full assms(2) by (auto simp: np_mod_def)
qed

lemma detect_brightspot_Inr:
  "detect_brightspot v thres window step = Inr spots \<longleftrightarrow>
     0 \<in> set (va_frame v) \<and> 0 < window \<and>
     spots = height_loop (meanfm v) thres window step (va_width v)
                (rolling (va_height v) window) (\<lambda>r c. 0)"
  by (auto simp: detect_brightspot_def)

lemma detect_brightspot_count:
  assumes run: "detect_brightspot v thres window step = Inr spots" and step: "step \<noteq> 0"
  shows "spots r c = int (length (filter
            (\<lambda>t. covers window t r c \<and> tile_flagged (meanfm v) thres window t r c)
            (processed_tiles (va_height v) (va_width v) window step)))"
proof -
  from run have window: "0 < window"
    and spots: "spots = height_loop (meanfm v) thres window step (va_width v)
                (rolling (va_height v) window) (\<lambda>r c. 0)"
    by (simp_all add: detect_brightspot_Inr)
  let ?Q = "\<lambda>(i, j). (int i mod step = 0 \<and> int j mod step = 0 \<and> window \<le> int i + 1 \<and> window \<le> int j + 1)
          \<and> covers window (i, j) r c \<and> tile_flagged (meanfm v) thres window (i, j) r c"
  let ?B = "\<lambda>i j. (np_mod (int j) step = 0 \<and> int (Suc i - window_start window i) = window
              \<and> int (Suc j - window_start window j) = window) \<and>
           (window_start window i \<le> r \<and> r < Suc i \<and> window_start window j \<le> c \<and> c < Suc j \<and>
            tile_flags (meanfm v) thres (window_start window i) (Suc i) (window_start window j) (Suc j)
              ! (r - window_start window i) ! (c - window_start window j))"
  have row: "(if np_mod (int i) step = 0 then int (length (filter (?B i) [0..<va_width v])) else 0)
           = int (length (filter (\<lambda>j. ?Q (i, j)) [0..<va_width v]))" for i
  proof -
    have "filter (\<lambda>j. ?Q (i, j)) [0..<va_width v]
            = filter (\<lambda>j. np_mod (int i) step = 0 \<and> ?B i j) [0..<va_width v]"
      by (rule filter_cong [OF refl])
         (simp only: prod.case tile_pred_iff [OF window step, of i _ r c "meanfm v" thres])
    then show ?thesis by simp
  qed
  have "spots r c = sum_list (map (\<lambda>i.
          if np_mod (int i) step = 0 then int (length (filter (?B i) [0..<va_width v])) else 0)
          [0..<va_height v])"
    unfolding spots height_loop_count rolling_map
    by (simp add: comp_def filter_map cong: if_cong)
  also have "\<dots> = sum_list (map (\<lambda>i.
          int (length (filter (\<lambda>j. ?Q (i, j)) [0..<va_width v]))) [0..<va_height v])"
    by (simp only: row)
  also have "\<dots> = int (length (filter ?Q (List.product [0..<va_height v] [0..<va_width v])))"
    by (rule length_filter_product [symmetric])
  also have "\<dots> = int (length (filter
            (\<lambda>t. covers window t r c \<and> tile_flagged (meanfm v) thres window t r c)
            (processed_tiles (va_height v) (va_width v) window step)))"
    unfolding processed_tiles_def filter_filter
    by (intro arg_cong [where f = int] arg_cong [where f = length] filter_cong) auto
  finally show ?thesis .
qed

lemma detect_brightspot_bounds:
  assumes "detect_brightspot v thres window step = Inr spots" and "step \<noteq> 0"
  shows "0 \<le> spots r c"
    and "spots r c \<le> int (length (filter (\<lambda>t. covers window t r c)
                          (processed_tiles (va_height v) (va_width v) window step)))"
proof -
  let ?ts = "processed_tiles (va_height v) (va_width v) window step"
  note count = detect_brightspot_count [OF assms, of r c]
  show "0 \<le> spots r c" unfolding count by simp
  have "filter (\<lambda>t. covers window t r c \<and> tile_flagged (meanfm v) thres window t r c) ?ts
          = filter (\<lambda>t. tile_flagged (meanfm v) thres window t r c)
              (filter (\<lambda>t. covers window t r c) ?ts)"
    by (simp add: conj_commute)
  then have "length (filter (\<lambda>t. covers window t r c \<and> tile_flagged (meanfm v) thres window t r c) ?ts)
          \<le> length (filter (\<lambda>t. covers window t r c) ?ts)"
    by (simp only: length_filter_le)
  then show "spots r c \<le> int (length (filter (\<lambda>t. covers window t r c) ?ts))"
    unfolding count by simp
qed

subsection \<open>Tiles without variance\<close>

lemma mean_replicate: "0 < n \<Longrightarrow> mean (replicate n k) = k"
  by (simp add: mean_def sum_list_replicate)

lemma zscore_constant_tile:
  assumes const: "\<forall>r c. hs \<le> r \<and> r < he \<and> ws \<le> c \<and> c < we \<longrightarrow> m r c = k"
      and i: "i < he - hs" and j: "j < we - ws"
  shows "zscore (window_data m hs he ws we) ! i ! j = None"
proof -
  let ?a = "window_data m hs he ws we"
  have len: "length ?a = he - hs" by (simp add: window_data_def)
  have row: "length (?a ! i) = we - ws" using i by (simp add: window_data_def)
  have col: "map (\<lambda>r. r ! j) ?a = replicate (he - hs) k"
  proof (rule nth_equalityI)
    show "length (map (\<lambda>r. r ! j) ?a) = length (replicate (he - hs) k)" by (simp add: len)
  next
    fix n assume "n < length (map (\<lambda>r. r ! j) ?a)"
    then have n: "n < he - hs" by (simp add: len)
    with j have "map (\<lambda>r. r ! j) ?a ! n = m (hs + n) (ws + j)"
      by (simp add: window_data_def)
    also have "\<dots> = k"
    proof -
      from n j have "hs \<le> hs + n \<and> hs + n < he \<and> ws \<le> ws + j \<and> ws + j < we" by linarith
      with const show ?thesis by blast
    qed
    finally show "map (\<lambda>r. r ! j) ?a ! n = replicate (he - hs) k ! n" using n by simp
  qed
  from i have pos: "0 < he - hs" by simp
  have sd: "sqrt (mean (map (\<lambda>x. (x - mean (replicate (he - hs) k))\<^sup>2) (replicate (he - hs) k))) = 0"
    by (simp add: mean_replicate [OF pos])
  have "zscore ?a ! i ! j =
     (if sqrt (mean (map (\<lambda>x. (x - mean (map (\<lambda>r. r ! j) ?a))\<^sup>2) (map (\<lambda>r. r ! j) ?a))) = 0
      then None
      else Some ((?a ! i ! j - mean (map (\<lambda>r. r ! j) ?a))
                   / sqrt (mean (map (\<lambda>x. (x - mean (map (\<lambda>r. r ! j) ?a))\<^sup>2) (map (\<lambda>r. r ! j) ?a)))))"
    using i j unfolding zscore_def Let_def by (simp add: len row del: real_sqrt_eq_zero_cancel_iff map_map)
  then show ?thesis unfolding col sd by simp
qed

lemma tile_flags_constant:
  assumes const: "\<forall>r c. hs \<le> r \<and> r < he \<and> ws \<le> c \<and> c < we \<longrightarrow> m r c = k"
      and i: "i < he - hs" and j: "j < we - ws"
  shows "\<not> tile_flags m thres hs he ws we ! i ! j"
proof -
  let ?z = "zscore (window_data m hs he ws we)"
  have len: "length ?z = he - hs" by (simp add: zscore_def window_data_def)
  have row: "length (?z ! i) = we - ws" using i by (simp add: zscore_def window_data_def)
  have "tile_flags m thres hs he ws we ! i ! j = gt (?z ! i ! j) (cur_thres thres ?z)"
    using i j by (simp add: tile_flags_def Let_def len row)
  also have "\<dots> = False"
    by (simp add: zscore_constant_tile [OF assms] gt_def)
  finally show ?thesis by simp
qed

lemma rolling_bounds:
  "(i, s, e) \<in> set (rolling n window) \<Longrightarrow> e \<le> n"
  by (auto simp: rolling_def)

subsection \<open>The lower quantile\<close>

lemma quantile_index:
  assumes "0 \<le> q" and "q \<le> 1" and "xs \<noteq> []"
  shows "nat \<lfloor>q * real (length xs - 1)\<rfloor> \<le> nat \<lceil>q * real (length xs - 1)\<rceil>"
    and "nat \<lceil>q * real (length xs - 1)\<rceil> < length xs"
proof -
  define n where "n = length xs - 1"
  define x where "x = q * real n"
  have "\<lfloor>x\<rfloor> \<le> \<lceil>x\<rceil>" by (rule floor_le_ceiling)
  then have "nat \<lfloor>x\<rfloor> \<le> nat \<lceil>x\<rceil>" by (rule nat_mono)
  then show "nat \<lfloor>q * real (length xs - 1)\<rfloor> \<le> nat \<lceil>q * real (length xs - 1)\<rceil>"
    by (simp only: x_def n_def)
  from assms(1,2) have "x \<le> real n"
    unfolding x_def by (simp add: mult_left_le_one_le)
  then have "\<lceil>x\<rceil> \<le> int n" by (simp add: ceiling_le_iff)
  then have "nat \<lceil>x\<rceil> \<le> n" by linarith
  moreover from assms(3) have "n < length xs" by (simp add: n_def)
  ultimately have "nat \<lceil>x\<rceil> < length xs" by linarith
  then show "nat \<lceil>q * real (length xs - 1)\<rceil> < length xs"
    by (simp only: x_def n_def)
qed

lemma quantile_lower_bracket:
  assumes "0 \<le> q" and "q \<le> 1" and "xs \<noteq> []"
  shows "quantile_lower q xs = Some (lower_of_bracket q xs)"
    and "lower_of_bracket q xs \<in> set xs"
proof -
  let ?lo = "nat \<lfloor>q * real (length xs - 1)\<rfloor>" and ?hi = "nat \<lceil>q * real (length xs - 1)\<rceil>"
  note idx = quantile_index [OF assms]
  from idx(2) have hi: "?hi < length (sort xs)" by (simp only: length_sort)
  have "sorted (sort xs)" by (rule sorted_sort)
  from sorted_nth_mono [OF this idx(1) hi] have "sort xs ! ?lo \<le> sort xs ! ?hi" .
  then have eq: "lower_of_bracket q xs = sort xs ! ?lo"
    unfolding lower_of_bracket_def Let_def by (rule min_absorb1)
  from assms(3) show "quantile_lower q xs = Some (lower_of_bracket q xs)"
    unfolding eq quantile_lower_def by simp
  from idx(1) hi have "?lo < length (sort xs)" by (rule le_less_trans)
  then have "sort xs ! ?lo \<in> set (sort xs)" by (rule nth_mem)
  then show "lower_of_bracket q xs \<in> set xs" by (simp add: eq)
qed

lemma frame_samples_mem:
  "r < va_height v \<Longrightarrow> c < va_width v \<Longrightarrow> va_values v f r c \<in> set (frame_samples v f)"
  by (auto simp: frame_samples_def intro!: bexI [of _ r])

subsection \<open>Evaluation on videos of 2 x 2 pixels\<close>

lemma upt2: "[0..<2] = [0, Suc 0]"
  by (simp add: upt_conv_Cons)

lemma rolling_2_2: "rolling 2 2 = [(0, 0, 1), (1, 0, 2)]"
  by (simp add: rolling_def upt2)

lemma detect_brightspot_2x2:
  assumes "0 \<in> set (va_frame v)" and "va_height v = 2" and "va_width v = 2"
  shows "detect_brightspot v thres 2 1 =
           Inr (add_tile (tile_flags (meanfm v) thres 0 2 0 2) 0 2 0 2 (\<lambda>r c. 0))"
  using assms
  by (simp add: detect_brightspot_def height_loop_def width_loop_def rolling_2_2 np_mod_def)
lemma window_ex_zero: "window_data (meanfm ex_zero) 0 2 0 2 = [[0, 0], [2, 6]]"
  by (simp add: window_data_def meanfm_def ex_zero_def mean_def upt2)
lemma window_ex_tile: "window_data (meanfm ex_tile) 0 2 0 2 = [[0, 6], [8, 14]]"
  by (simp add: window_data_def meanfm_def ex_tile_def mean_def upt2)

lemma zscore_ex_zero: "zscore [[0, 0], [2, 6]] = [[Some (- 1), Some (- 1)], [Some 1, Some 1]]"
  by (simp add: zscore_def mean_def Let_def upt2)
lemma zscore_ex_tile: "zscore [[0, 6], [8, 14]] = [[Some (- 1), Some (- 1)], [Some 1, Some 1]]"
  by (simp add: zscore_def mean_def Let_def upt2)

subsection \<open>The claims about the detectors\<close>

text \<open>
  Claim C5. When \<open>detect_brightspot_perframe\<close> returns, a pixel of a frame is flagged
  exactly when its sample is greater than the lower of the two sorted samples of that
  frame that bracket the quantile position; this threshold is a sample of the frame,
  not an interpolated value; and the flags of a frame are those of any other video of
  the same extent that holds the same frame there, so they depend on no other frame.
  For the samples 1, 2, 3, 4 and the quantile 0.5 the threshold is 2 and the pixels
  holding 3 and 4 are flagged.
\<close>

theorem perframe_flags_above_lower_quantile:
  assumes run: "detect_brightspot_perframe v thres = Inr spots"
      and r: "r < va_height v" and c: "c < va_width v"
  shows "(spots f r c \<longleftrightarrow> lower_of_bracket thres (frame_samples v f) < va_values v f r c)
       \<and> lower_of_bracket thres (frame_samples v f) \<in> set (frame_samples v f)
       \<and> (\<forall>v2 spots2. detect_brightspot_perframe v2 thres = Inr spots2
              \<and> va_height v2 = va_height v \<and> va_width v2 = va_width v
              \<and> va_values v2 f = va_values v f
            \<longrightarrow> spots2 f = spots f)"
proof -
  from run have q: "0 \<le> thres" "thres \<le> 1"
    and spots: "spots = (\<lambda>f r c. detect_frame thres (frame_samples v f) (va_values v f r c))"
    by (auto simp: detect_brightspot_perframe_def split: if_splits)
  from frame_samples_mem [OF r c, of f] have ne: "frame_samples v f \<noteq> []" by auto
  note br = quantile_lower_bracket [OF q ne]
  have "spots f r c \<longleftrightarrow> lower_of_bracket thres (frame_samples v f) < va_values v f r c"
    by (simp add: spots detect_frame_def br(1) gt_def)
  moreover have "\<forall>v2 spots2. detect_brightspot_perframe v2 thres = Inr spots2
              \<and> va_height v2 = va_height v \<and> va_width v2 = va_width v
              \<and> va_values v2 f = va_values v f
            \<longrightarrow> spots2 f = spots f"
    by (auto simp: detect_brightspot_perframe_def spots frame_samples_def split: if_splits)
  ultimately show ?thesis using br(2) by blast
qed
theorem perframe_flags_above_lower_quantile_witness:
  "\<exists>spots. detect_brightspot_perframe ex_quad (1 / 2) = Inr spots
      \<and> frame_samples ex_quad 0 = [1, 2, 3, 4]
      \<and> lower_of_bracket (1 / 2) (frame_samples ex_quad 0) = 2
      \<and> \<not> spots 0 0 0 \<and> \<not> spots 0 0 1 \<and> spots 0 1 0 \<and> spots 0 1 1"
proof -
  obtain spots where run: "detect_brightspot_perframe ex_quad (1 / 2) = Inr spots"
    by (simp add: detect_brightspot_perframe_def ex_quad_def)
  have fs: "frame_samples ex_quad 0 = [1, 2, 3, 4]" by code_simp
  have lo: "lower_of_bracket (1 / 2) [1, 2, 3, 4] = 2" by code_simp
  have h: "va_height ex_quad = 2" and w: "va_width ex_quad = 2"
    and vals: "\<And>f r c. va_values ex_quad f r c = [[1, 2], [3, 4]] ! r ! c"
    by (simp_all add: ex_quad_def)
  have "\<not> spots 0 0 0"
    using perframe_flags_above_lower_quantile [OF run, where r = 0 and c = 0 and f = 0]
    by (simp add: h w fs lo vals)
  moreover have "\<not> spots 0 0 1"
    using perframe_flags_above_lower_quantile [OF run, where r = 0 and c = 1 and f = 0]
    by (simp add: h w fs lo vals)
  moreover have "spots 0 1 0"
    using perframe_flags_above_lower_quantile [OF run, where r = 1 and c = 0 and f = 0]
    by (simp add: h w fs lo vals)
  moreover have "spots 0 1 1"
    using perframe_flags_above_lower_quantile [OF run, where r = 1 and c = 1 and f = 0]
    by (simp add: h w fs lo vals)
  ultimately show ?thesis using run fs lo by simp
qed
text \<open>
  Claim C6. The mask of \<open>detect_brightspot\<close> counts, for every pixel, the processed tiles
  that cover the pixel and flag it (\<open>detect_brightspot_count\<close>, \<open>detect_brightspot_bounds\<close>
  above). The test by which a tile flags a pixel is not the one of the claim: the
  z-score is taken within the column of the tile, not over the pixels of the tile. On
  the frame with the rows 0, 6 and 8, 14, with \<open>window = 2\<close>, \<open>step = 1\<close> and the
  threshold 6/5, the one processed tile covers the pixel (1, 1), whose z-score over the
  four pixels of the tile is 7/5; the code computes 1 for it and leaves the mask at 0.
\<close>

theorem zscore_taken_per_column:
  "processed_tiles 2 2 2 1 = [(1, 1)]
   \<and> covers 2 (1, 1) 1 1
   \<and> zscore_population (window_data (meanfm ex_tile) 0 2 0 2)
        = [[Some (- (7 / 5)), Some (- (1 / 5))], [Some (1 / 5), Some (7 / 5)]]
   \<and> zscore (window_data (meanfm ex_tile) 0 2 0 2)
        = [[Some (- 1), Some (- 1)], [Some 1, Some 1]]
   \<and> (\<exists>spots. detect_brightspot ex_tile (Some (6 / 5)) 2 1 = Inr spots \<and> spots 1 1 = 0)"
proof -
  have z: "zscore (window_data (meanfm ex_tile) 0 2 0 2) = [[Some (- 1), Some (- 1)], [Some 1, Some 1]]"
    by (simp only: window_ex_tile zscore_ex_tile)
  have zp: "zscore_population (window_data (meanfm ex_tile) 0 2 0 2)
        = [[Some (- (7 / 5)), Some (- (1 / 5))], [Some (1 / 5), Some (7 / 5)]]"
    unfolding window_ex_tile by (simp add: zscore_population_def mean_def Let_def)
  have t: "cur_thres (Some (6 / 5)) [[Some (- 1), Some (- 1)], [Some 1, Some 1]] = Some (6 / 5)"
    by (simp add: cur_thres_def)
  have fl: "tile_flags (meanfm ex_tile) (Some (6 / 5)) 0 2 0 2 = [[False, False], [False, False]]"
    unfolding tile_flags_def Let_def z t by (simp add: gt_def)
  have run: "detect_brightspot ex_tile (Some (6 / 5)) 2 1 =
           Inr (add_tile (tile_flags (meanfm ex_tile) (Some (6 / 5)) 0 2 0 2) 0 2 0 2 (\<lambda>r c. 0))"
    by (rule detect_brightspot_2x2) (simp_all add: ex_tile_def)
  have tiles: "processed_tiles 2 2 2 1 = [(1, 1)]"
    by (simp add: processed_tiles_def upt2)
  have cov: "covers 2 (1, 1) 1 1" by (simp add: covers_def)
  have "\<exists>spots. detect_brightspot ex_tile (Some (6 / 5)) 2 1 = Inr spots \<and> spots 1 1 = 0"
    unfolding run fl by (simp add: add_tile_def)
  with tiles cov z zp show ?thesis by simp
qed

text \<open>
  Claim C7. For a video with a frame labelled 0 whose mean frame is constant, and a
  positive window, \<open>detect_brightspot\<close> without a threshold returns a mask that is 0
  everywhere: every column of every tile is without variance, its z-scores are NaN, and
  no comparison with NaN flags a pixel.
\<close>

theorem constant_mean_frame_flags_nothing:
  assumes frame0: "0 \<in> set (va_frame v)" and window: "0 < window"
      and const: "\<forall>r<va_height v. \<forall>c<va_width v. meanfm v r c = k"
  shows "\<exists>spots. detect_brightspot v None window step = Inr spots \<and> (\<forall>r c. spots r c = 0)"
proof -
  let ?spots = "height_loop (meanfm v) None window step (va_width v)
                  (rolling (va_height v) window) (\<lambda>r c. 0)"
  have run: "detect_brightspot v None window step = Inr ?spots"
    using frame0 window by (simp add: detect_brightspot_def)
  have "?spots r c = 0" for r c
  proof -
    have inner: "filter (\<lambda>(iw, ws, we).
          (np_mod iw step = 0 \<and> int (he - hs) = window \<and> int (we - ws) = window) \<and>
          (hs \<le> r \<and> r < he \<and> ws \<le> c \<and> c < we \<and>
           tile_flags (meanfm v) None hs he ws we ! (r - hs) ! (c - ws)))
            (rolling (va_width v) window) = []"
      if "(ih, hs, he) \<in> set (rolling (va_height v) window)" for ih hs he
    proof -
      have "\<not> (hs \<le> r \<and> r < he \<and> ws \<le> c \<and> c < we \<and>
                tile_flags (meanfm v) None hs he ws we ! (r - hs) ! (c - ws))"
        if "(iw, ws, we) \<in> set (rolling (va_width v) window)" for iw ws we
      proof
        assume a: "hs \<le> r \<and> r < he \<and> ws \<le> c \<and> c < we \<and>
                tile_flags (meanfm v) None hs he ws we ! (r - hs) ! (c - ws)"
        from rolling_bounds [OF \<open>(ih, hs, he) \<in> set (rolling (va_height v) window)\<close>]
          rolling_bounds [OF that]
        have "he \<le> va_height v" "we \<le> va_width v" .
        with const have "\<forall>r c. hs \<le> r \<and> r < he \<and> ws \<le> c \<and> c < we \<longrightarrow> meanfm v r c = k"
          by simp
        moreover from a have "r - hs < he - hs" "c - ws < we - ws" by auto
        ultimately have "\<not> tile_flags (meanfm v) None hs he ws we ! (r - hs) ! (c - ws)"
          by (rule tile_flags_constant)
        with a show False by simp
      qed
      then show ?thesis by (auto simp: filter_empty_conv)
    qed
    let ?k = "\<lambda>(ih, hs, he).
        if np_mod ih step = 0
        then int (length (filter (\<lambda>(iw, ws, we).
          (np_mod iw step = 0 \<and> int (he - hs) = window \<and> int (we - ws) = window) \<and>
          (hs \<le> r \<and> r < he \<and> ws \<le> c \<and> c < we \<and>
           tile_flags (meanfm v) None hs he ws we ! (r - hs) ! (c - ws))) (rolling (va_width v) window)))
        else 0"
    have zero: "?k x = 0" if "x \<in> set (rolling (va_height v) window)" for x
    proof -
      obtain ih hs he where x: "x = (ih, hs, he)" by (cases x)
      from that have "(ih, hs, he) \<in> set (rolling (va_height v) window)" by (simp add: x)
      from inner [OF this] show ?thesis unfolding x prod.case by simp
    qed
    have "map ?k (rolling (va_height v) window) = map (\<lambda>x. 0) (rolling (va_height v) window)"
      by (rule map_cong [OF refl]) (rule zero)
    then have "sum_list (map ?k (rolling (va_height v) window))
                 = sum_list (map (\<lambda>x. 0::int) (rolling (va_height v) window))"
      by (rule arg_cong)
    also have "\<dots> = 0" by simp
    finally have "sum_list (map ?k (rolling (va_height v) window)) = 0" .
    then show ?thesis unfolding height_loop_count by simp
  qed
  with run show ?thesis by blast
qed
theorem constant_mean_frame_flags_nothing_witness:
  "\<exists>spots. detect_brightspot ex_const None 2 1 = Inr spots \<and> (\<forall>r c. spots r c = 0)"
proof -
  have "0 \<in> set (va_frame ex_const)" by (simp add: ex_const_def)
  moreover have "(0::int) < 2" by simp
  moreover have "\<forall>r<va_height ex_const. \<forall>c<va_width ex_const. meanfm ex_const r c = 5"
    by (simp add: ex_const_def meanfm_def mean_def)
  ultimately show ?thesis by (rule constant_mean_frame_flags_nothing)
qed
text \<open>
  Claim C9. A threshold that the caller supplies is not always the one in force: the
  test \<open>not thres\<close> holds for 0 as it does for \<open>None\<close>, so with \<open>thres = 0\<close> every tile
  uses its adaptive threshold. On the frame with the rows 0, 0 and 2, 6, with
  \<open>window = 2\<close> and \<open>step = 1\<close>, the pixel (1, 1) has the z-score 1, which is greater
  than 0, and the threshold in force is 1: the mask stays 0 there.
\<close>

theorem zero_threshold_replaced_by_adaptive:
  "cur_thres (Some 0) mean_z = cur_thres None mean_z
   \<and> zscore (window_data (meanfm ex_zero) 0 2 0 2) = [[Some (- 1), Some (- 1)], [Some 1, Some 1]]
   \<and> cur_thres (Some 0) (zscore (window_data (meanfm ex_zero) 0 2 0 2)) = Some 1
   \<and> (\<exists>spots. detect_brightspot ex_zero (Some 0) 2 1 = Inr spots \<and> spots 1 1 = 0)"
proof -
  have z: "zscore (window_data (meanfm ex_zero) 0 2 0 2) = [[Some (- 1), Some (- 1)], [Some 1, Some 1]]"
    by (simp only: window_ex_zero zscore_ex_zero)
  have t: "cur_thres (Some 0) [[Some (- 1), Some (- 1)], [Some 1, Some 1]] = Some 1"
    by (simp add: cur_thres_def nanmin_def)
  have fl: "tile_flags (meanfm ex_zero) (Some 0) 0 2 0 2 = [[False, False], [False, False]]"
    unfolding tile_flags_def Let_def z t by (simp add: gt_def)
  have run: "detect_brightspot ex_zero (Some 0) 2 1 =
           Inr (add_tile (tile_flags (meanfm ex_zero) (Some 0) 0 2 0 2) 0 2 0 2 (\<lambda>r c. 0))"
    by (rule detect_brightspot_2x2) (simp_all add: ex_zero_def)
  have "cur_thres (Some 0) mean_z = cur_thres None mean_z" by (simp add: cur_thres_def)
  moreover have "\<exists>spots. detect_brightspot ex_zero (Some 0) 2 1 = Inr spots \<and> spots 1 1 = 0"
    unfolding run fl by (simp add: add_tile_def)
  ultimately show ?thesis using z t by simp
qed

end
